theory Spec2Isabelle
  imports Complex_Main "HOL-Library.Word"
begin

unbundle bit_operations_syntax

section \<open>The Spirit PFP generator: numbers, helpers and the random source\<close>

text \<open>
  The development embeds the drawing code of \<^verbatim>\<open>src/app/page.tsx\<close>: the helpers
  \<^verbatim>\<open>clamp\<close>, \<^verbatim>\<open>fitCover\<close>, \<^verbatim>\<open>seeded\<close>, \<^verbatim>\<open>path\<close>, the two procedural layers
  \<^verbatim>\<open>drawParticles\<close> and \<^verbatim>\<open>drawLightning\<close>, and the render function \<^verbatim>\<open>draw\<close>.

  JavaScript numbers are IEEE doubles. They are modelled by \<^typ>\<open>real\<close>: rounding of
  the double operations is not modelled. Where the source divides by a value that can
  be zero (the aspect ratios of \<^verbatim>\<open>fitCover\<close>) the results \<^verbatim>\<open>Infinity\<close> and \<^verbatim>\<open>NaN\<close> are
  values of the model. The integers of the linear congruential generator are exact in
  the source as well (see \<open>lcg_product_exact\<close>), and so are its outputs, multiples of
  \<open>2 ^ - 24\<close>.
\<close>

subsection \<open>Numbers that may be infinite or undefined\<close>

datatype jsnum = Num real | PosInf | NegInf | NaN

text \<open>\<^verbatim>\<open>a / b\<close> for a finite divisor \<open>b\<close> (a positive zero when it is zero).\<close>

fun js_div :: "jsnum \<Rightarrow> real \<Rightarrow> jsnum" where
  "js_div (Num a) b =
     (if b = 0 then (if a = 0 then NaN else if 0 < a then PosInf else NegInf)
      else Num (a / b))"
| "js_div PosInf b = (if 0 \<le> b then PosInf else NegInf)"
| "js_div NegInf b = (if 0 \<le> b then NegInf else PosInf)"
| "js_div NaN b = NaN"

text \<open>\<^verbatim>\<open>a * b\<close> for a finite left factor.\<close>

fun js_mul :: "real \<Rightarrow> jsnum \<Rightarrow> jsnum" where
  "js_mul a (Num b) = Num (a * b)"
| "js_mul a PosInf = (if a = 0 then NaN else if 0 < a then PosInf else NegInf)"
| "js_mul a NegInf = (if a = 0 then NaN else if 0 < a then NegInf else PosInf)"
| "js_mul a NaN = NaN"

text \<open>\<^verbatim>\<open>a - b\<close> for a finite minuend.\<close>

fun js_sub :: "real \<Rightarrow> jsnum \<Rightarrow> jsnum" where
  "js_sub a (Num b) = Num (a - b)"
| "js_sub a PosInf = NegInf"
| "js_sub a NegInf = PosInf"
| "js_sub a NaN = NaN"

text \<open>\<^verbatim>\<open>Math.floor\<close>.\<close>

fun js_floor :: "jsnum \<Rightarrow> jsnum" where
  "js_floor (Num a) = Num (of_int \<lfloor>a\<rfloor>)"
| "js_floor PosInf = PosInf"
| "js_floor NegInf = NegInf"
| "js_floor NaN = NaN"

text \<open>\<^verbatim>\<open>a > b\<close>: false as soon as one side is \<^verbatim>\<open>NaN\<close>.\<close>

fun js_gt :: "jsnum \<Rightarrow> jsnum \<Rightarrow> bool" where
  "js_gt (Num a) (Num b) = (b < a)"
| "js_gt (Num a) NegInf = True"
| "js_gt PosInf (Num b) = True"
| "js_gt PosInf NegInf = True"
| "js_gt a b = False"

subsection \<open>\<^verbatim>\<open>clamp\<close> and \<^verbatim>\<open>fitCover\<close>\<close>

text \<open>\<^verbatim>\<open>function clamp(v, a, b) { return Math.max(a, Math.min(b, v)); }\<close>\<close>

definition clamp :: "real \<Rightarrow> real \<Rightarrow> real \<Rightarrow> real" where
  "clamp v a b = max a (min b v)"

text \<open>
  The object \<^verbatim>\<open>{ sx, sy, s, dx, dy, d }\<close> returned by \<^verbatim>\<open>fitCover\<close>: the source crop is the
  square of side \<^verbatim>\<open>s\<close> at \<^verbatim>\<open>(sx, sy)\<close>, the destination the square of side \<^verbatim>\<open>d\<close> at
  \<^verbatim>\<open>(dx, dy)\<close>.
\<close>

record fit =
  fit_sx :: jsnum
  fit_sy :: jsnum
  fit_s :: jsnum
  fit_dx :: jsnum
  fit_dy :: jsnum
  fit_d :: jsnum

text \<open>
  \<^verbatim>\<open>
  function fitCover(iw, ih, W, H) {
    const ir = iw / ih, r = W / H;
    let s = 0, sx = 0, sy = 0, d = 0, dx = 0, dy = 0;
    if (ir > r) { // wider image
      s = Math.floor(ih * (W / H));
      sx = Math.floor((iw - s) / 2);
      sy = 0;
      d = W;
      dx = 0; dy = 0;
    } else {
      s = Math.floor(iw * (H / W));
      sy = Math.floor((ih - s) / 2);
      sx = 0;
      d = H;
      dx = 0; dy = 0;
    }
    return { sx, sy, s, dx, dy, d };
  }
  \<close>
\<close>

definition fitCover :: "real \<Rightarrow> real \<Rightarrow> real \<Rightarrow> real \<Rightarrow> fit" where
  "fitCover iw ih W H =
     (let ir = js_div (Num iw) ih; r = js_div (Num W) H in
      if js_gt ir r then
        (let s = js_floor (js_mul ih (js_div (Num W) H));
             sx = js_floor (js_div (js_sub iw s) 2)
         in \<lparr>fit_sx = sx, fit_sy = Num 0, fit_s = s,
             fit_dx = Num 0, fit_dy = Num 0, fit_d = Num W\<rparr>)
      else
        (let s = js_floor (js_mul iw (js_div (Num H) W));
             sy = js_floor (js_div (js_sub ih s) 2)
         in \<lparr>fit_sx = Num 0, fit_sy = sy, fit_s = s,
             fit_dx = Num 0, fit_dy = Num 0, fit_d = Num H\<rparr>))"

subsection \<open>The pseudo-random source \<^verbatim>\<open>seeded\<close>\<close>

text \<open>
  \<^verbatim>\<open>
  function seeded(seed) {
    let s = seed >>> 0 || 1;
    return function () {
      s = (1664525 * s + 1013904223) >>> 0;
      return (s & 0x00ffffff) / 0x01000000;
    }
  }
  \<close>
  The closure's variable \<^verbatim>\<open>s\<close> is an unsigned 32-bit value (\<^verbatim>\<open>>>> 0\<close>): the state of
  the stream. \<open>seeded\<close> gives the initial state for an integral seed, and \<open>rnd\<close> is one
  call of the returned function: the value it returns and the state it leaves.
\<close>

type_synonym rng = "32 word"

definition seeded :: "int \<Rightarrow> rng" where
  "seeded seed = (let s = (word_of_int seed :: 32 word) in if s = 0 then 1 else s)"

definition rnd :: "rng \<Rightarrow> real \<times> rng" where
  "rnd s = (let s' = 1664525 * s + 1013904223
            in (real (unat (s' AND 0x00ffffff)) / 0x01000000, s'))"

text \<open>The values of the first \<open>n\<close> calls of a stream in state \<open>s\<close>.\<close>

fun draws :: "nat \<Rightarrow> rng \<Rightarrow> real list" where
  "draws 0 s = []"
| "draws (Suc n) s = fst (rnd s) # draws n (snd (rnd s))"

text \<open>
  The seed of the particle layer, \<^verbatim>\<open>Math.floor(intensity * 1e6) ^ W ^ H\<close>: \<^verbatim>\<open>^\<close> works
  on the operands as 32-bit integers and gives a signed 32-bit integer.
\<close>

definition particleSeed :: "nat \<Rightarrow> nat \<Rightarrow> real \<Rightarrow> int" where
  "particleSeed W H intensity =
     sint ((word_of_int \<lfloor>intensity * 1000000\<rfloor> :: 32 word) XOR word_of_nat W XOR word_of_nat H)"

text \<open>The seed of the lightning layer, \<^verbatim>\<open>12345 + Math.floor(intensity * 1000)\<close>.\<close>

definition lightningSeed :: "real \<Rightarrow> int" where
  "lightningSeed intensity = 12345 + \<lfloor>intensity * 1000\<rfloor>"


section \<open>The canvas\<close>

text \<open>
  The 2D context of the canvas is modelled by the state that the drawing code can set
  and by the sequence of painting calls made since the bitmap was last reset. Pixels
  are not computed: a painting call is recorded with its arguments and with the drawing
  state under which it was made, which is all that the bitmap depends on. The browser's
  validation of arguments (for instance of a radius or of a filter string) is outside
  the model.
\<close>

datatype composite = SourceOver | Screen

text \<open>A CSS filter is a list of filter functions; \<^verbatim>\<open>"none"\<close> is the empty list.\<close>

datatype filter_fn = Contrast real | Saturate real | Blur real | Brightness real

datatype color = Hex string | Rgba real real real real

datatype style =
    Solid color
  | Linear real real real real "(real \<times> color) list"
  | Radial real real real real real real "(real \<times> color) list"

definition createLinearGradient :: "real \<Rightarrow> real \<Rightarrow> real \<Rightarrow> real \<Rightarrow> style" where
  "createLinearGradient x0 y0 x1 y1 = Linear x0 y0 x1 y1 []"

definition createRadialGradient ::
    "real \<Rightarrow> real \<Rightarrow> real \<Rightarrow> real \<Rightarrow> real \<Rightarrow> real \<Rightarrow> style" where
  "createRadialGradient x0 y0 r0 x1 y1 r1 = Radial x0 y0 r0 x1 y1 r1 []"

fun addColorStop :: "real \<Rightarrow> color \<Rightarrow> style \<Rightarrow> style" where
  "addColorStop off col (Linear x0 y0 x1 y1 stops) = Linear x0 y0 x1 y1 (stops @ [(off, col)])"
| "addColorStop off col (Radial x0 y0 r0 x1 y1 r1 stops) =
     Radial x0 y0 r0 x1 y1 r1 (stops @ [(off, col)])"
| "addColorStop off col (Solid c) = Solid c"

text \<open>The drawing state: what \<^verbatim>\<open>save\<close> pushes and \<^verbatim>\<open>restore\<close> pops.\<close>

record dstate =
  globalCompositeOperation :: composite
  ctx_filter :: "filter_fn list"
  fillStyle :: style
  strokeStyle :: style
  lineWidth :: real

definition default_dstate :: dstate where
  "default_dstate =
     \<lparr>globalCompositeOperation = SourceOver, ctx_filter = [],
      fillStyle = Solid (Hex ''000000''), strokeStyle = Solid (Hex ''000000''),
      lineWidth = 1\<rparr>"

record image =
  img_width :: nat
  img_height :: nat
  img_pixels :: "nat list"

datatype seg = MoveTo real real | LineTo real real | Arc real real real real real

datatype prim =
    ClearRect real real real real
  | FillRect real real real real
  | DrawImage image jsnum jsnum jsnum jsnum jsnum jsnum jsnum jsnum
  | DrawCanvas real real
  | Fill "seg list"
  | Stroke "seg list"

text \<open>
  The canvas with its context: the current drawing state, the stack of saved states,
  the current path, the painting calls since the last reset (\<open>DrawCanvas\<close> is
  \<^verbatim>\<open>drawImage\<close> with the canvas itself as the image), and the size of the bitmap.
\<close>

record canvas =
  cur :: dstate
  saved :: "dstate list"
  cur_path :: "seg list"
  ops :: "(prim \<times> dstate) list"
  cv_width :: nat
  cv_height :: nat

text \<open>
  Assigning \<^verbatim>\<open>cv.width\<close> or \<^verbatim>\<open>cv.height\<close> resets the context to its default state and
  clears the bitmap, also when the value does not change.
\<close>

definition set_width :: "nat \<Rightarrow> canvas \<Rightarrow> canvas" where
  "set_width W c =
     \<lparr>cur = default_dstate, saved = [], cur_path = [], ops = [],
      cv_width = W, cv_height = cv_height c\<rparr>"

definition set_height :: "nat \<Rightarrow> canvas \<Rightarrow> canvas" where
  "set_height H c =
     \<lparr>cur = default_dstate, saved = [], cur_path = [], ops = [],
      cv_width = cv_width c, cv_height = H\<rparr>"

definition set_globalCompositeOperation :: "composite \<Rightarrow> canvas \<Rightarrow> canvas" where
  "set_globalCompositeOperation v c = c\<lparr>cur := (cur c)\<lparr>globalCompositeOperation := v\<rparr>\<rparr>"

definition set_filter :: "filter_fn list \<Rightarrow> canvas \<Rightarrow> canvas" where
  "set_filter v c = c\<lparr>cur := (cur c)\<lparr>ctx_filter := v\<rparr>\<rparr>"

definition set_fillStyle :: "style \<Rightarrow> canvas \<Rightarrow> canvas" where
  "set_fillStyle v c = c\<lparr>cur := (cur c)\<lparr>fillStyle := v\<rparr>\<rparr>"

definition set_strokeStyle :: "style \<Rightarrow> canvas \<Rightarrow> canvas" where
  "set_strokeStyle v c = c\<lparr>cur := (cur c)\<lparr>strokeStyle := v\<rparr>\<rparr>"

definition set_lineWidth :: "real \<Rightarrow> canvas \<Rightarrow> canvas" where
  "set_lineWidth v c = c\<lparr>cur := (cur c)\<lparr>lineWidth := v\<rparr>\<rparr>"

definition save :: "canvas \<Rightarrow> canvas" where
  "save c = c\<lparr>saved := cur c # saved c\<rparr>"

definition restore :: "canvas \<Rightarrow> canvas" where
  "restore c = (case saved c of [] \<Rightarrow> c | d # ds \<Rightarrow> c\<lparr>cur := d, saved := ds\<rparr>)"

definition paint :: "prim \<Rightarrow> canvas \<Rightarrow> canvas" where
  "paint pr c = c\<lparr>ops := ops c @ [(pr, cur c)]\<rparr>"

definition clearRect :: "real \<Rightarrow> real \<Rightarrow> real \<Rightarrow> real \<Rightarrow> canvas \<Rightarrow> canvas" where
  "clearRect x y w h c = paint (ClearRect x y w h) c"

definition fillRect :: "real \<Rightarrow> real \<Rightarrow> real \<Rightarrow> real \<Rightarrow> canvas \<Rightarrow> canvas" where
  "fillRect x y w h c = paint (FillRect x y w h) c"

definition drawImage ::
    "image \<Rightarrow> jsnum \<Rightarrow> jsnum \<Rightarrow> jsnum \<Rightarrow> jsnum \<Rightarrow> jsnum \<Rightarrow> jsnum \<Rightarrow> jsnum \<Rightarrow> jsnum \<Rightarrow>
     canvas \<Rightarrow> canvas" where
  "drawImage im sx sy sw sh dx dy dw dh c = paint (DrawImage im sx sy sw sh dx dy dw dh) c"

definition drawCanvas :: "real \<Rightarrow> real \<Rightarrow> canvas \<Rightarrow> canvas" where
  "drawCanvas dx dy c = paint (DrawCanvas dx dy) c"

definition beginPath :: "canvas \<Rightarrow> canvas" where
  "beginPath c = c\<lparr>cur_path := []\<rparr>"

definition moveTo :: "real \<Rightarrow> real \<Rightarrow> canvas \<Rightarrow> canvas" where
  "moveTo x y c = c\<lparr>cur_path := cur_path c @ [MoveTo x y]\<rparr>"

definition lineTo :: "real \<Rightarrow> real \<Rightarrow> canvas \<Rightarrow> canvas" where
  "lineTo x y c = c\<lparr>cur_path := cur_path c @ [LineTo x y]\<rparr>"

definition arc :: "real \<Rightarrow> real \<Rightarrow> real \<Rightarrow> real \<Rightarrow> real \<Rightarrow> canvas \<Rightarrow> canvas" where
  "arc x y r a0 a1 c = c\<lparr>cur_path := cur_path c @ [Arc x y r a0 a1]\<rparr>"

definition fill :: "canvas \<Rightarrow> canvas" where
  "fill c = paint (Fill (cur_path c)) c"

definition stroke :: "canvas \<Rightarrow> canvas" where
  "stroke c = paint (Stroke (cur_path c)) c"


section \<open>The procedural layers\<close>

text \<open>
  \<^verbatim>\<open>
  function path(ctx, pts) {
    ctx.beginPath();
    for (let i = 0; i < pts.length; i++) {
      const [x, y] = pts[i];
      if (i === 0) ctx.moveTo(x, y); else ctx.lineTo(x, y);
    }
  }
  \<close>
\<close>

fun path_loop :: "nat \<Rightarrow> (real \<times> real) list \<Rightarrow> canvas \<Rightarrow> canvas" where
  "path_loop i [] c = c"
| "path_loop i ((x, y) # pts) c =
     path_loop (Suc i) pts (if i = 0 then moveTo x y c else lineTo x y c)"

definition path :: "canvas \<Rightarrow> (real \<times> real) list \<Rightarrow> canvas" where
  "path c pts = path_loop 0 pts (beginPath c)"

subsection \<open>\<^verbatim>\<open>drawParticles\<close>\<close>

text \<open>
  One round of the loop of \<^verbatim>\<open>drawParticles\<close>, from the state \<open>s0\<close> of the stream:
  \<^verbatim>\<open>
      const x = rnd() * W;
      const y = rnd() * H;
      const r = 0.5 + rnd() * 2.2;
      const a = 0.35 + rnd() * 0.45;
      const g = ctx.createRadialGradient(x, y, 0, x, y, r * 4);
      g.addColorStop(0, `rgba(255,255,255,${a})`);
      g.addColorStop(1, `rgba(100,220,255,0)`);
      ctx.fillStyle = g;
      ctx.beginPath();
      ctx.arc(x, y, r * 4, 0, Math.PI * 2);
      ctx.fill();
  \<close>
\<close>

definition particle :: "real \<Rightarrow> real \<Rightarrow> rng \<Rightarrow> canvas \<Rightarrow> canvas \<times> rng" where
  "particle W H s0 c =
     (let (u1, s1) = rnd s0; x = u1 * W;
          (u2, s2) = rnd s1; y = u2 * H;
          (u3, s3) = rnd s2; r = 0.5 + u3 * 2.2;
          (u4, s4) = rnd s3; a = 0.35 + u4 * 0.45;
          g = createRadialGradient x y 0 x y (r * 4);
          g = addColorStop 0 (Rgba 255 255 255 a) g;
          g = addColorStop 1 (Rgba 100 220 255 0) g;
          c = set_fillStyle g c;
          c = beginPath c;
          c = arc x y (r * 4) 0 (pi * 2) c;
          c = fill c
      in (c, s4))"

text \<open>\<^verbatim>\<open>for (let i = 0; i < count; i++) { ... }\<close>: \<open>n\<close> rounds are left to run.\<close>

fun particles_loop :: "nat \<Rightarrow> real \<Rightarrow> real \<Rightarrow> rng \<Rightarrow> canvas \<Rightarrow> canvas" where
  "particles_loop 0 W H s c = c"
| "particles_loop (Suc n) W H s c =
     (let (c', s') = particle W H s c in particles_loop n W H s' c')"

text \<open>
  \<^verbatim>\<open>
  function drawParticles(ctx, W, H, count, intensity) {
    const rnd = seeded(Math.floor(intensity * 1e6) ^ W ^ H);
    ctx.save();
    ctx.globalCompositeOperation = "screen";
    for (...) { ... }
    ctx.restore();
  }
  \<close>
\<close>

definition drawParticles :: "canvas \<Rightarrow> nat \<Rightarrow> nat \<Rightarrow> nat \<Rightarrow> real \<Rightarrow> canvas" where
  "drawParticles ctx W H count intensity =
     (let s = seeded (particleSeed W H intensity);
          c = save ctx;
          c = set_globalCompositeOperation Screen c;
          c = particles_loop count (real W) (real H) s c
      in restore c)"

subsection \<open>\<^verbatim>\<open>drawLightning\<close>\<close>

text \<open>
  One round of the inner loop, from the point \<open>(x, y)\<close> and the state \<open>s0\<close>:
  \<^verbatim>\<open>
      x += Math.cos(angle + (rnd() - 0.5) * 0.5) * (len / segments);
      y += Math.sin(angle + (rnd() - 0.5) * 0.5) * (len / segments);
      x += (rnd() - 0.5) * jitter;
      y += (rnd() - 0.5) * jitter;
  \<close>
  \<open>step_draws\<close> gives the four values that the round takes from the stream, named
  after their use and in the order of the calls, and the state the round leaves.
\<close>

record step_rnd =
  u_cos :: real
  u_sin :: real
  u_jx :: real
  u_jy :: real

definition step_draws :: "rng \<Rightarrow> step_rnd \<times> rng" where
  "step_draws s0 =
     (let (u1, s1) = rnd s0; (u2, s2) = rnd s1; (u3, s3) = rnd s2; (u4, s4) = rnd s3
      in (\<lparr>u_cos = u1, u_sin = u2, u_jx = u3, u_jy = u4\<rparr>, s4))"

definition lightning_step ::
    "real \<Rightarrow> real \<Rightarrow> real \<Rightarrow> real \<Rightarrow> real \<Rightarrow> real \<Rightarrow> rng \<Rightarrow> real \<times> real \<times> rng" where
  "lightning_step angle len segments jitter x y s0 =
     (let (u, s4) = step_draws s0;
          x = x + cos (angle + (u_cos u - 0.5) * 0.5) * (len / segments);
          y = y + sin (angle + (u_sin u - 0.5) * 0.5) * (len / segments);
          x = x + (u_jx u - 0.5) * jitter;
          y = y + (u_jy u - 0.5) * jitter
      in (x, y, s4))"

text \<open>
  \<^verbatim>\<open>for (let i = 1; i <= segments; i++) { ...; pts.push([x, y]); }\<close>: \<open>n\<close> rounds are
  left to run.
\<close>

fun segments_loop ::
    "nat \<Rightarrow> real \<Rightarrow> real \<Rightarrow> real \<Rightarrow> real \<Rightarrow> real \<Rightarrow> real \<Rightarrow> rng \<Rightarrow> (real \<times> real) list \<Rightarrow>
     (real \<times> real) list \<times> rng" where
  "segments_loop 0 angle len segments jitter x y s pts = (pts, s)"
| "segments_loop (Suc n) angle len segments jitter x y s pts =
     (let (x', y', s') = lightning_step angle len segments jitter x y s
      in segments_loop n angle len segments jitter x' y' s' (pts @ [(x', y')]))"

text \<open>
  One round of the outer loop:
  \<^verbatim>\<open>
      const x0 = rnd() * W * 0.8 + W * 0.1;
      const y0 = rnd() * H * 0.8 + H * 0.1;
      const len = (H * 0.25 + rnd() * H * 0.35) * (0.7 + intensity * 0.6);
      const segments = 15 + Math.floor(rnd() * 18);
      const jitter = 10 + 30 * rnd();
      const pts = [[x0, y0]];
      let x = x0, y = y0;
      const angle = (rnd() * Math.PI * 2);
      for (...) { ... }
      // glow
      ctx.strokeStyle = "rgba(120,220,255,0.55)";
      ctx.lineWidth = 6;
      ctx.filter = `blur(${8 + 10 * intensity}px)`;
      path(ctx, pts); ctx.stroke();
      // core
      ctx.filter = "none";
      ctx.strokeStyle = "rgba(200,255,255,0.9)";
      ctx.lineWidth = 2;
      path(ctx, pts); ctx.stroke();
  \<close>
\<close>

definition branch :: "real \<Rightarrow> real \<Rightarrow> real \<Rightarrow> rng \<Rightarrow> canvas \<Rightarrow> canvas \<times> rng" where
  "branch W H intensity s0 c =
     (let (u1, s1) = rnd s0; x0 = u1 * W * 0.8 + W * 0.1;
          (u2, s2) = rnd s1; y0 = u2 * H * 0.8 + H * 0.1;
          (u3, s3) = rnd s2; len = (H * 0.25 + u3 * H * 0.35) * (0.7 + intensity * 0.6);
          (u4, s4) = rnd s3; segments = 15 + nat \<lfloor>u4 * 18\<rfloor>;
          (u5, s5) = rnd s4; jitter = 10 + 30 * u5;
          (u6, s6) = rnd s5; angle = u6 * pi * 2;
          (pts, s7) = segments_loop segments angle len (real segments) jitter x0 y0 s6 [(x0, y0)];
          c = set_strokeStyle (Solid (Rgba 120 220 255 0.55)) c;
          c = set_lineWidth 6 c;
          c = set_filter [Blur (8 + 10 * intensity)] c;
          c = path c pts;
          c = stroke c;
          c = set_filter [] c;
          c = set_strokeStyle (Solid (Rgba 200 255 255 0.9)) c;
          c = set_lineWidth 2 c;
          c = path c pts;
          c = stroke c
      in (c, s7))"

text \<open>\<^verbatim>\<open>for (let b = 0; b < branches; b++) { ... }\<close>: \<open>n\<close> rounds are left to run.\<close>

fun branches_loop :: "nat \<Rightarrow> real \<Rightarrow> real \<Rightarrow> real \<Rightarrow> rng \<Rightarrow> canvas \<Rightarrow> canvas" where
  "branches_loop 0 W H intensity s c = c"
| "branches_loop (Suc n) W H intensity s c =
     (let (c', s') = branch W H intensity s c in branches_loop n W H intensity s' c')"

text \<open>
  \<^verbatim>\<open>
  function drawLightning(ctx, W, H, branches, intensity) {
    const rnd = seeded(12345 + Math.floor(intensity * 1000));
    ctx.save();
    ctx.globalCompositeOperation = "screen";
    for (...) { ... }
    ctx.restore();
  }
  \<close>
\<close>

definition drawLightning :: "canvas \<Rightarrow> nat \<Rightarrow> nat \<Rightarrow> nat \<Rightarrow> real \<Rightarrow> canvas" where
  "drawLightning ctx W H branches intensity =
     (let s = seeded (lightningSeed intensity);
          c = save ctx;
          c = set_globalCompositeOperation Screen c;
          c = branches_loop branches (real W) (real H) intensity s c
      in restore c)"


section \<open>The render function \<^verbatim>\<open>draw\<close>\<close>

text \<open>
  The values of the controls that \<^verbatim>\<open>draw\<close> reads (the component's state
  \<^verbatim>\<open>size\<close>, \<^verbatim>\<open>glow\<close>, \<^verbatim>\<open>intensity\<close>, \<^verbatim>\<open>cyanize\<close>, \<^verbatim>\<open>contrast\<close>, \<^verbatim>\<open>saturation\<close>,
  \<^verbatim>\<open>vignette\<close>, \<^verbatim>\<open>particles\<close>, \<^verbatim>\<open>lightning\<close>, \<^verbatim>\<open>background\<close>). The controls set with
  \<^verbatim>\<open>parseInt\<close> from sliders with a minimum of at least 0 are natural numbers.
\<close>

datatype background = Dark | Transparent

record options =
  opt_size :: nat
  opt_glow :: nat
  opt_intensity :: real
  opt_cyanize :: real
  opt_contrast :: real
  opt_saturation :: real
  opt_vignette :: real
  opt_particles :: nat
  opt_lightning :: bool
  opt_background :: background

text \<open>
  The blocks of \<^verbatim>\<open>draw\<close>, named after the comments that open them.
  \<^verbatim>\<open>
    // Background
    if (background === "dark") {
      const g = ctx.createLinearGradient(0, 0, 0, H);
      g.addColorStop(0, "#0b1220");
      g.addColorStop(1, "#0a0f1a");
      ctx.fillStyle = g;
      ctx.fillRect(0, 0, W, H);
    }
  \<close>
\<close>

definition background_layer :: "background \<Rightarrow> real \<Rightarrow> real \<Rightarrow> canvas \<Rightarrow> canvas" where
  "background_layer bg W H c =
     (if bg = Dark then
        (let g = createLinearGradient 0 0 0 H;
             g = addColorStop 0 (Hex ''0b1220'') g;
             g = addColorStop 1 (Hex ''0a0f1a'') g;
             c = set_fillStyle g c
         in fillRect 0 0 W H c)
      else c)"

text \<open>
  \<^verbatim>\<open>
      const { sx, sy, s, dx, dy, d } = fitCover(img.width, img.height, W, H);
      // Base, slightly enhanced
      ctx.filter = `contrast(${contrast}) saturate(${saturation})`;
      ctx.drawImage(img, sx, sy, s, s, dx, dy, d, d);
      ctx.filter = "none";
  \<close>
\<close>

definition base_layer :: "image \<Rightarrow> real \<Rightarrow> real \<Rightarrow> real \<Rightarrow> real \<Rightarrow> canvas \<Rightarrow> canvas" where
  "base_layer im W H contrast saturation c =
     (let f = fitCover (real (img_width im)) (real (img_height im)) W H;
          c = set_filter [Contrast contrast, Saturate saturation] c;
          c = drawImage im (fit_sx f) (fit_sy f) (fit_s f) (fit_s f)
                (fit_dx f) (fit_dy f) (fit_d f) (fit_d f) c
      in set_filter [] c)"

text \<open>
  \<^verbatim>\<open>
      // Cyan tint overlay (screen)
      ctx.globalCompositeOperation = "screen";
      const tint = ctx.createRadialGradient(W / 2, H / 2, W * 0.15, W / 2, H / 2, W * 0.8);
      const c = clamp(cyanize, 0, 1);
      tint.addColorStop(0, `rgba(0, 255, 255, ${0.35 * c})`);
      tint.addColorStop(1, `rgba(0, 160, 255, ${0.10 * c})`);
      ctx.fillStyle = tint;
      ctx.fillRect(0, 0, W, H);
      ctx.globalCompositeOperation = "source-over";
  \<close>
\<close>

definition tint_layer :: "real \<Rightarrow> real \<Rightarrow> real \<Rightarrow> canvas \<Rightarrow> canvas" where
  "tint_layer W H cyanize c =
     (let c = set_globalCompositeOperation Screen c;
          tint = createRadialGradient (W / 2) (H / 2) (W * 0.15) (W / 2) (H / 2) (W * 0.8);
          cz = clamp cyanize 0 1;
          tint = addColorStop 0 (Rgba 0 255 255 (0.35 * cz)) tint;
          tint = addColorStop 1 (Rgba 0 160 255 (0.10 * cz)) tint;
          c = set_fillStyle tint c;
          c = fillRect 0 0 W H c
      in set_globalCompositeOperation SourceOver c)"

text \<open>
  \<^verbatim>\<open>
        // Glow pass: blur the original composite, then screen it back
        ctx.save();
        ctx.globalCompositeOperation = "screen";
        ctx.filter = `blur(${glow}px) brightness(${1 + intensity}) saturate(${1 + intensity * 0.4})`;
        ctx.drawImage(cv, 0, 0); // self-blur
        ctx.restore();
  \<close>
\<close>

definition glow_layer :: "nat \<Rightarrow> real \<Rightarrow> canvas \<Rightarrow> canvas" where
  "glow_layer glow intensity c =
     (let c = save c;
          c = set_globalCompositeOperation Screen c;
          c = set_filter
                [Blur (real glow), Brightness (1 + intensity), Saturate (1 + intensity * 0.4)] c;
          c = drawCanvas 0 0 c
      in restore c)"

text \<open>
  \<^verbatim>\<open>
        // Vignette
        const vg = ctx.createRadialGradient(W / 2, H / 2, W * (1 - vignette), W / 2, H / 2, W * 0.75);
        vg.addColorStop(0, "rgba(0,0,0,0)");
        vg.addColorStop(1, "rgba(0,0,0,0.55)");
        ctx.fillStyle = vg;
        ctx.fillRect(0, 0, W, H);
  \<close>
\<close>

definition vignette_layer :: "real \<Rightarrow> real \<Rightarrow> real \<Rightarrow> canvas \<Rightarrow> canvas" where
  "vignette_layer W H vignette c =
     (let vg = createRadialGradient (W / 2) (H / 2) (W * (1 - vignette)) (W / 2) (H / 2) (W * 0.75);
          vg = addColorStop 0 (Rgba 0 0 0 0) vg;
          vg = addColorStop 1 (Rgba 0 0 0 0.55) vg;
          c = set_fillStyle vg c
      in fillRect 0 0 W H c)"

text \<open>
  The body of \<^verbatim>\<open>if (img) { ... }\<close>: every layer drawn from or over the image.
  \<^verbatim>\<open>
    if (img) {
      ... base ... tint ...
      if (glow > 0) { ... }
      // Spirit particles
      drawParticles(ctx, W, H, particles, intensity);
      // Lightning arcs (optional)
      if (lightning) drawLightning(ctx, W, H, 6, intensity);
      // Vignette
      if (vignette > 0) { ... }
    }
  \<close>
\<close>

definition image_layers :: "image \<Rightarrow> nat \<Rightarrow> nat \<Rightarrow> options \<Rightarrow> canvas \<Rightarrow> canvas" where
  "image_layers im W H p c =
     (let c = base_layer im (real W) (real H) (opt_contrast p) (opt_saturation p) c;
          c = tint_layer (real W) (real H) (opt_cyanize p) c;
          c = (if 0 < opt_glow p then glow_layer (opt_glow p) (opt_intensity p) c else c);
          c = drawParticles c W H (opt_particles p) (opt_intensity p);
          c = (if opt_lightning p then drawLightning c W H 6 (opt_intensity p) else c);
          c = (if 0 < opt_vignette p
               then vignette_layer (real W) (real H) (opt_vignette p) c else c)
      in c)"

text \<open>
  \<^verbatim>\<open>
  const draw = async () => {
    const cv = canvasRef.current;
    if (!cv) return;
    const ctx = cv.getContext("2d");
    if (!ctx) return;
    const W = size;
    const H = size;
    cv.width = W;
    cv.height = H;
    // Background
    ctx.clearRect(0, 0, W, H);
    if (background === "dark") { ... }
    // Draw user image, fit-cover to square
    if (img) { ... }
  };
  \<close>
  The first argument is the canvas that \<^verbatim>\<open>draw\<close> finds, with its 2D context: \<open>None\<close>
  when there is no canvas or no context, and then \<^verbatim>\<open>draw\<close> returns at once. The second
  is the component's \<^verbatim>\<open>img\<close>, \<open>None\<close> for \<^verbatim>\<open>null\<close>. The result is the canvas as \<^verbatim>\<open>draw\<close>
  leaves it.
\<close>

definition draw :: "canvas option \<Rightarrow> image option \<Rightarrow> options \<Rightarrow> canvas option" where
  "draw cv img p =
     (case cv of
        None \<Rightarrow> None
      | Some c \<Rightarrow>
          (let W = opt_size p;
               H = opt_size p;
               c = set_width W c;
               c = set_height H c;
               c = clearRect 0 0 (real W) (real H) c;
               c = background_layer (opt_background p) (real W) (real H) c;
               c = (case img of None \<Rightarrow> c | Some im \<Rightarrow> image_layers im W H p c)
           in Some c))"

text \<open>The values that \<^verbatim>\<open>reset\<close> gives the controls, with the initial size 1024.\<close>

definition default_options :: options where
  "default_options =
     \<lparr>opt_size = 1024, opt_glow = 24, opt_intensity = 0.7, opt_cyanize = 0.55,
      opt_contrast = 1.1, opt_saturation = 1.25, opt_vignette = 0.35,
      opt_particles = 150, opt_lightning = True, opt_background = Dark\<rparr>"

text \<open>A canvas as the browser creates it: 300 by 150, nothing drawn.\<close>

definition blank_canvas :: canvas where
  "blank_canvas =
     \<lparr>cur = default_dstate, saved = [], cur_path = [], ops = [],
      cv_width = 300, cv_height = 150\<rparr>"


section \<open>Observations\<close>

text \<open>The operator and the filter of the context are neutral: source-over, no filter.\<close>

definition neutral :: "canvas \<Rightarrow> bool" where
  "neutral c \<longleftrightarrow> globalCompositeOperation (cur c) = SourceOver \<and> ctx_filter (cur c) = []"

text \<open>The painting calls that a run of \<^verbatim>\<open>draw\<close> has made on the canvas it leaves.\<close>

definition painted :: "canvas option \<Rightarrow> prim list" where
  "painted r = (case r of None \<Rightarrow> [] | Some c \<Rightarrow> map fst (ops c))"

fun is_fill :: "prim \<Rightarrow> bool" where
  "is_fill (Fill p) = True"
| "is_fill pr = False"

fun is_stroke :: "prim \<Rightarrow> bool" where
  "is_stroke (Stroke p) = True"
| "is_stroke pr = False"

text \<open>
  The discs of the particle layer are the only filled paths of a render, the bolts of
  the lightning layer its only stroked paths (each bolt is stroked twice).
\<close>

definition fills :: "canvas option \<Rightarrow> nat" where
  "fills r = length (filter is_fill (painted r))"

definition strokes :: "canvas option \<Rightarrow> nat" where
  "strokes r = length (filter is_stroke (painted r))"

text \<open>
  The round of the lightning loop as the specification words it, for comparison with
  \<open>lightning_step\<close>: one perturbed heading per round, used for the horizontal and for
  the vertical advance, then the two jitters.
\<close>

definition spec_lightning_step ::
    "real \<Rightarrow> real \<Rightarrow> real \<Rightarrow> real \<Rightarrow> real \<Rightarrow> real \<Rightarrow> rng \<Rightarrow> real \<times> real \<times> rng" where
  "spec_lightning_step angle len segments jitter x y s0 =
     (let (u1, s1) = rnd s0;
          heading = angle + (u1 - 0.5) * 0.5;
          x = x + cos heading * (len / segments);
          y = y + sin heading * (len / segments);
          (u2, s2) = rnd s1;
          x = x + (u2 - 0.5) * jitter;
          (u3, s3) = rnd s2;
          y = y + (u3 - 0.5) * jitter
      in (x, y, s3))"


section \<open>The random source\<close>

lemma low24_mask: "(0x00ffffff :: 32 word) = mask 24"
  by (simp add: mask_eq_decr_exp)

lemma unat_low24: "unat ((w :: 32 word) AND 0x00ffffff) = unat w mod 2 ^ 24"
proof -
  have "unat (w AND mask 24) = unat (take_bit 24 w)"
    by (simp only: take_bit_eq_mask)
  also have "\<dots> = take_bit 24 (unat w)"
    by (simp only: unsigned_take_bit_eq)
  also have "\<dots> = unat w mod 2 ^ 24"
    by (simp only: take_bit_eq_mod)
  finally show ?thesis by (simp only: low24_mask)
qed

lemma rnd_state: "unat (snd (rnd s)) = (1664525 * unat s + 1013904223) mod 2 ^ 32"
  by (simp add: rnd_def Let_def unat_word_ariths mod_simps)

lemma rnd_value: "fst (rnd s) = real (unat (snd (rnd s)) mod 2 ^ 24) / 2 ^ 24"
  by (simp add: rnd_def Let_def unat_low24)

lemma rnd_ge0: "0 \<le> fst (rnd s)"
  by (simp add: rnd_value)

lemma rnd_less1: "fst (rnd s) < 1"
proof -
  have "unat (snd (rnd s)) mod 2 ^ 24 < 2 ^ 24" by simp
  then have "real (unat (snd (rnd s)) mod 2 ^ 24) < 2 ^ 24"
    by (metis of_nat_less_iff of_nat_numeral of_nat_power)
  then show ?thesis by (simp add: rnd_value)
qed

text \<open>
  The source computes \<^verbatim>\<open>1664525 * s + 1013904223\<close> on doubles. The value stays below
  \<open>2 ^ 53\<close>, so the double is the exact integer and \<^verbatim>\<open>>>> 0\<close> reduces it modulo \<open>2 ^ 32\<close>.
\<close>

lemma lcg_product_exact: "1664525 * unat (s :: 32 word) + 1013904223 < 2 ^ 53"
proof -
  have "unat s < 2 ^ 32" using unsigned_less [of s] by simp
  then show ?thesis by simp
qed

lemma seeded_cong: "a mod 2 ^ 32 = b mod 2 ^ 32 \<Longrightarrow> seeded a = seeded b"
proof -
  assume "a mod 2 ^ 32 = b mod 2 ^ 32"
  then have "(word_of_int a :: 32 word) = word_of_int b"
    by (simp add: word_of_int_eq_iff take_bit_eq_mod)
  then show ?thesis by (simp add: seeded_def)
qed

lemma draws_range: "x \<in> set (draws n s) \<Longrightarrow> 0 \<le> x \<and> x < 1"
  by (induction n arbitrary: s) (auto simp: rnd_ge0 rnd_less1)

lemma length_draws: "length (draws n s) = n"
  by (induction n arbitrary: s) auto

text \<open>
  Claim C3. A stream is its state, and the state after construction is a function of
  the seed: two streams made from the same seed, and more generally from seeds that
  agree modulo \<open>2 ^ 32\<close>, give the same values for every number of draws. The seed 0
  gives the stream of the seed 1. Every draw replaces the state \<open>s\<close> by
  \<open>(1664525 * s + 1013904223) mod 2 ^ 32\<close> and returns the low 24 bits of the new
  state divided by \<open>2 ^ 24\<close>, a value in \<open>[0, 1)\<close>.
\<close>

theorem seeded_stream:
  "seeded 0 = seeded 1
   \<and> draws n (seeded 0) = draws n (seeded 1)
   \<and> (a mod 2 ^ 32 = b mod 2 ^ 32 \<longrightarrow> draws n (seeded a) = draws n (seeded b))
   \<and> unat (snd (rnd s)) = (1664525 * unat s + 1013904223) mod 2 ^ 32
   \<and> fst (rnd s) = real (unat (snd (rnd s) AND 0x00ffffff)) / 0x01000000
   \<and> 0 \<le> fst (rnd s) \<and> fst (rnd s) < 1
   \<and> length (draws n s) = n
   \<and> (\<forall>x \<in> set (draws n s). 0 \<le> x \<and> x < 1)"
proof -
  have z: "seeded 0 = seeded 1" by (simp add: seeded_def)
  have v: "fst (rnd s) = real (unat (snd (rnd s) AND 0x00ffffff)) / 0x01000000"
    by (simp add: rnd_def Let_def)
  show ?thesis
    using z seeded_cong [of a b] rnd_state [of s] v rnd_ge0 [of s] rnd_less1 [of s]
      length_draws [of n s] draws_range [of _ n s]
    by auto
qed

theorem seeded_stream_witness:
  "(5 :: int) mod 2 ^ 32 = 4294967301 mod 2 ^ 32
   \<and> draws 3 (seeded 5) = draws 3 (seeded 4294967301)
   \<and> draws 3 (seeded 0) = draws 3 (seeded 1)
   \<and> length (draws 3 (seeded 1)) = 3
   \<and> list_all (\<lambda>x. 0 \<le> x \<and> x < 1) (draws 3 (seeded 1))"
  using seeded_stream [of 3 5 4294967301 "seeded 1"]
  by (simp add: list_all_iff)

text \<open>
  Claim C10. With the width equal to the height, the two size operands of the seed of
  the particle layer cancel: the seed is \<open>\<lfloor>intensity * 1e6\<rfloor>\<close> as a signed 32-bit
  integer whatever the size, so for a given intensity the layer takes the same values
  from its stream at every output size.
\<close>

theorem particle_seed_size_independent:
  "particleSeed W W i = particleSeed W' W' i
   \<and> particleSeed W W i = sint (word_of_int \<lfloor>i * 1000000\<rfloor> :: 32 word)
   \<and> seeded (particleSeed W W i) = seeded (particleSeed W' W' i)
   \<and> draws n (seeded (particleSeed W W i)) = draws n (seeded (particleSeed W' W' i))"
  by (simp add: particleSeed_def)

section \<open>The fit calculator\<close>

text \<open>
  Claim C4. For a source of 800 by 400 and a destination of 300 by 300, \<^verbatim>\<open>fitCover\<close>
  returns the crop of side 400 at \<open>(200, 0)\<close>, drawn on the destination square of side
  300 at \<open>(0, 0)\<close>.
\<close>

theorem fitCover_wide_example:
  "fitCover 800 400 300 300 =
     \<lparr>fit_sx = Num 200, fit_sy = Num 0, fit_s = Num 400,
      fit_dx = Num 0, fit_dy = Num 0, fit_d = Num 300\<rparr>"
  by (simp add: fitCover_def)

text \<open>
  With a square destination of a side other than 0 the two ratios that \<^verbatim>\<open>fitCover\<close>
  compares are equal for a square source, and the factor \<^verbatim>\<open>H / W\<close> is 1.
\<close>

lemma fitCover_square:
  "W \<noteq> 0 \<Longrightarrow>
   fitCover (real n) (real n) W W =
     \<lparr>fit_sx = Num 0, fit_sy = Num 0, fit_s = Num (real n),
      fit_dx = Num 0, fit_dy = Num 0, fit_d = Num W\<rparr>"
  by (simp add: fitCover_def)


section \<open>A round of the lightning loop\<close>

text \<open>
  The multiplier of the generator is odd and so is its increment: a draw changes the
  parity of the state, and the parity is the lowest of the 24 bits returned. Two
  successive draws never return the same value.
\<close>

lemma rnd_parity: "even (unat (snd (rnd s))) \<longleftrightarrow> odd (unat s)"
proof -
  have "even ((1664525 * unat s + 1013904223) mod 2 ^ 32) \<longleftrightarrow> even (1664525 * unat s + 1013904223)"
    by (rule dvd_mod_iff) simp
  then show ?thesis by (simp add: rnd_state)
qed

lemma rnd_value_parity: "even (unat (snd (rnd s)) mod 2 ^ 24) \<longleftrightarrow> even (unat (snd (rnd s)))"
  by (rule dvd_mod_iff) simp

lemma rnd_successive_differ: "fst (rnd (snd (rnd s))) \<noteq> fst (rnd s)"
proof
  assume "fst (rnd (snd (rnd s))) = fst (rnd s)"
  then have "unat (snd (rnd (snd (rnd s)))) mod 2 ^ 24 = unat (snd (rnd s)) mod 2 ^ 24"
    by (simp add: rnd_value)
  then have "even (unat (snd (rnd (snd (rnd s))))) \<longleftrightarrow> even (unat (snd (rnd s)))"
    using rnd_value_parity [of s] rnd_value_parity [of "snd (rnd s)"] by simp
  then show False using rnd_parity [of "snd (rnd s)"] by simp
qed

lemma step_draws_unfold:
  "step_draws s0 =
     (\<lparr>u_cos = fst (rnd s0), u_sin = fst (rnd (snd (rnd s0))),
       u_jx = fst (rnd (snd (rnd (snd (rnd s0))))),
       u_jy = fst (rnd (snd (rnd (snd (rnd (snd (rnd s0)))))))\<rparr>,
      snd (rnd (snd (rnd (snd (rnd (snd (rnd s0))))))))"
  by (simp add: step_draws_def Let_def split_def)

lemma step_draws_range:
  "0 \<le> u_cos (fst (step_draws s0)) \<and> u_cos (fst (step_draws s0)) < 1
   \<and> 0 \<le> u_sin (fst (step_draws s0)) \<and> u_sin (fst (step_draws s0)) < 1
   \<and> 0 \<le> u_jx (fst (step_draws s0)) \<and> u_jx (fst (step_draws s0)) < 1
   \<and> 0 \<le> u_jy (fst (step_draws s0)) \<and> u_jy (fst (step_draws s0)) < 1"
  by (simp add: step_draws_unfold rnd_ge0 rnd_less1)

lemma half_jitter_bound:
  fixes u j :: real
  assumes "0 \<le> u" "u < 1" "0 \<le> j"
  shows "\<bar>(u - 0.5) * j\<bar> \<le> j / 2"
proof -
  have "\<bar>u - 0.5\<bar> \<le> 1 / 2" using assms by linarith
  then have "\<bar>u - 0.5\<bar> * j \<le> (1 / 2) * j" using assms(3) by (rule mult_right_mono)
  then show ?thesis using assms(3) by (simp add: abs_mult)
qed

text \<open>
  Claim C7, as stated: a round advances along one perturbed heading, the same for the
  horizontal and for the vertical advance. In the source the argument of \<^verbatim>\<open>Math.cos\<close>
  and the argument of \<^verbatim>\<open>Math.sin\<close> each call \<^verbatim>\<open>rnd()\<close>. In the first round from the
  initial state of the stream of the default intensity 0.7 the two values drawn are
  \<open>705149 / 1048576\<close> and \<open>5888239 / 16777216\<close>, and the point reached is not the
  point that a round with one heading reaches.
\<close>

theorem lightning_step_headings_differ:
  "step_draws (seeded (lightningSeed 0.7)) =
     (\<lparr>u_cos = 705149 / 1048576, u_sin = 5888239 / 16777216,
       u_jx = 6461633 / 8388608, u_jy = 14566137 / 16777216\<rparr>, 2346599161)
   \<and> u_cos (fst (step_draws (seeded (lightningSeed 0.7))))
       \<noteq> u_sin (fst (step_draws (seeded (lightningSeed 0.7))))
   \<and> fst (lightning_step 0 300 20 10 0 0 (seeded (lightningSeed 0.7)))
       \<noteq> fst (spec_lightning_step 0 300 20 10 0 0 (seeded (lightningSeed 0.7)))"
proof -
  have s: "seeded (lightningSeed 0.7) = 13045"
    by (simp add: seeded_def lightningSeed_def)
  have d: "step_draws 13045 =
     (\<lparr>u_cos = 705149 / 1048576, u_sin = 5888239 / 16777216,
       u_jx = 6461633 / 8388608, u_jy = 14566137 / 16777216\<rparr>, 2346599161)"
    by (simp add: step_draws_unfold rnd_def Let_def)
  have l: "fst (lightning_step 0 300 20 10 0 0 13045)
       \<noteq> fst (spec_lightning_step 0 300 20 10 0 0 13045)"
    by (simp add: lightning_step_def spec_lightning_step_def d rnd_def Let_def)
  show ?thesis unfolding s using d l by simp
qed

text \<open>
  Claim C7, amended: a round adds \<open>cos (angle + px) * (len / segments)\<close> to \<open>x\<close> and
  \<open>sin (angle + py) * (len / segments)\<close> to \<open>y\<close>, where \<open>px\<close> and \<open>py\<close> come from two
  successive draws: each is at most 0.25 in absolute value and they are never equal.
  It then adds to \<open>x\<close> and to \<open>y\<close> a jitter from two further draws, each at most
  \<open>jitter / 2\<close> in absolute value when \<open>jitter\<close> is not negative.
\<close>

theorem lightning_step_two_headings:
  "(let u = fst (step_draws s0);
        px = (u_cos u - 0.5) * 0.5; py = (u_sin u - 0.5) * 0.5;
        jx = (u_jx u - 0.5) * jitter; jy = (u_jy u - 0.5) * jitter
    in lightning_step angle len segments jitter x y s0 =
         (x + cos (angle + px) * (len / segments) + jx,
          y + sin (angle + py) * (len / segments) + jy,
          snd (step_draws s0))
       \<and> \<bar>px\<bar> \<le> 0.25 \<and> \<bar>py\<bar> \<le> 0.25 \<and> px \<noteq> py
       \<and> (0 \<le> jitter \<longrightarrow> \<bar>jx\<bar> \<le> jitter / 2 \<and> \<bar>jy\<bar> \<le> jitter / 2))"
proof -
  let ?u = "fst (step_draws s0)"
  have r: "0 \<le> u_cos ?u" "u_cos ?u < 1" "0 \<le> u_sin ?u" "u_sin ?u < 1"
    "0 \<le> u_jx ?u" "u_jx ?u < 1" "0 \<le> u_jy ?u" "u_jy ?u < 1"
    using step_draws_range [of s0] by simp_all
  have d: "u_cos ?u \<noteq> u_sin ?u"
    using rnd_successive_differ [of s0] by (simp add: step_draws_unfold)
  have e: "lightning_step angle len segments jitter x y s0 =
         (x + cos (angle + (u_cos ?u - 0.5) * 0.5) * (len / segments) + (u_jx ?u - 0.5) * jitter,
          y + sin (angle + (u_sin ?u - 0.5) * 0.5) * (len / segments) + (u_jy ?u - 0.5) * jitter,
          snd (step_draws s0))"
    by (simp add: lightning_step_def Let_def split_def)
  have px: "\<bar>(u_cos ?u - 0.5) * 0.5\<bar> \<le> 0.25" using half_jitter_bound [OF r(1,2), of "0.5"] by simp
  have py: "\<bar>(u_sin ?u - 0.5) * 0.5\<bar> \<le> 0.25" using half_jitter_bound [OF r(3,4), of "0.5"] by simp
  have j: "0 \<le> jitter \<longrightarrow> \<bar>(u_jx ?u - 0.5) * jitter\<bar> \<le> jitter / 2
      \<and> \<bar>(u_jy ?u - 0.5) * jitter\<bar> \<le> jitter / 2"
    using r(5-8) half_jitter_bound by blast
  show ?thesis
    unfolding Let_def using e px py d j by simp
qed

theorem lightning_step_two_headings_witness:
  "(0 :: real) \<le> 10
   \<and> \<bar>(u_jx (fst (step_draws (seeded 13045))) - 0.5) * 10\<bar> \<le> 10 / 2
   \<and> u_cos (fst (step_draws (seeded 13045))) \<noteq> u_sin (fst (step_draws (seeded 13045)))"
  using lightning_step_two_headings [of "seeded 13045" 10 0 300 20 0 0]
  by (simp add: Let_def)

section \<open>What each layer changes\<close>

text \<open>
  Every layer only appends painting calls. The layers that call \<^verbatim>\<open>save\<close> and
  \<^verbatim>\<open>restore\<close> leave the drawing state as they found it.
\<close>

lemmas canvas_defs =
  set_globalCompositeOperation_def set_filter_def set_fillStyle_def set_strokeStyle_def
  set_lineWidth_def save_def restore_def paint_def clearRect_def fillRect_def drawImage_def
  drawCanvas_def beginPath_def moveTo_def lineTo_def arc_def fill_def stroke_def

lemma path_loop_frame:
  "cur (path_loop i pts c) = cur c \<and> saved (path_loop i pts c) = saved c
   \<and> ops (path_loop i pts c) = ops c"
  by (induction i pts c rule: path_loop.induct) (simp_all add: canvas_defs)

lemma path_frame:
  "cur (path c pts) = cur c \<and> saved (path c pts) = saved c \<and> ops (path c pts) = ops c"
  by (simp add: path_def path_loop_frame) (simp add: canvas_defs)

lemma particle_frame:
  "saved (fst (particle W H s c)) = saved c
   \<and> (\<exists>pr. is_fill pr \<and> map fst (ops (fst (particle W H s c))) = map fst (ops c) @ [pr])"
  by (simp add: particle_def Let_def split_def canvas_defs)

lemma particles_loop_frame:
  "saved (particles_loop n W H s c) = saved c
   \<and> (\<exists>ps. length ps = n \<and> list_all is_fill ps
         \<and> map fst (ops (particles_loop n W H s c)) = map fst (ops c) @ ps)"
proof (induction n arbitrary: s c)
  case 0
  show ?case by simp
next
  case (Suc n)
  obtain c' s' where p: "particle W H s c = (c', s')" by (cases "particle W H s c")
  from particle_frame [of W H s c] p obtain pr where
    c': "saved c' = saved c" "is_fill pr" "map fst (ops c') = map fst (ops c) @ [pr]"
    by auto
  from Suc.IH [of s' c'] obtain ps where
    ps: "saved (particles_loop n W H s' c') = saved c'" "length ps = n" "list_all is_fill ps"
      "map fst (ops (particles_loop n W H s' c')) = map fst (ops c') @ ps"
    by auto
  have "length (pr # ps) = Suc n \<and> list_all is_fill (pr # ps)
      \<and> map fst (ops (particles_loop n W H s' c')) = map fst (ops c) @ (pr # ps)"
    using c' ps by simp
  then have "\<exists>qs. length qs = Suc n \<and> list_all is_fill qs
      \<and> map fst (ops (particles_loop n W H s' c')) = map fst (ops c) @ qs"
    by blast
  then show ?case using p c' ps by simp
qed

lemma drawParticles_cur: "cur (drawParticles c W H n i) = cur c"
  using particles_loop_frame [of n "real W" "real H" "seeded (particleSeed W H i)"
      "set_globalCompositeOperation Screen (save c)"]
  by (simp add: drawParticles_def Let_def restore_def) (simp add: canvas_defs)

lemma drawParticles_saved: "saved (drawParticles c W H n i) = saved c"
  using particles_loop_frame [of n "real W" "real H" "seeded (particleSeed W H i)"
      "set_globalCompositeOperation Screen (save c)"]
  by (simp add: drawParticles_def Let_def restore_def) (simp add: canvas_defs)

lemma drawParticles_prims:
  "\<exists>ps. length ps = n \<and> list_all is_fill ps
     \<and> map fst (ops (drawParticles c W H n i)) = map fst (ops c) @ ps"
proof -
  let ?c = "particles_loop n (real W) (real H) (seeded (particleSeed W H i))
      (set_globalCompositeOperation Screen (save c))"
  have "ops (drawParticles c W H n i) = ops ?c"
    by (simp add: drawParticles_def Let_def restore_def split: list.split)
  moreover have "ops (set_globalCompositeOperation Screen (save c)) = ops c"
    by (simp add: canvas_defs)
  ultimately show ?thesis
    using particles_loop_frame [of n "real W" "real H" "seeded (particleSeed W H i)"
      "set_globalCompositeOperation Screen (save c)"]
    by simp
qed


lemma branch_frame:
  "saved (fst (branch W H i s c)) = saved c
   \<and> (\<exists>p q. map fst (ops (fst (branch W H i s c))) = map fst (ops c) @ [Stroke p, Stroke q])"
  by (simp add: branch_def Let_def split_def path_frame stroke_def paint_def
      set_filter_def set_strokeStyle_def set_lineWidth_def)

lemma branches_loop_frame:
  "saved (branches_loop n W H i s c) = saved c
   \<and> (\<exists>ps. length ps = 2 * n \<and> list_all is_stroke ps
         \<and> map fst (ops (branches_loop n W H i s c)) = map fst (ops c) @ ps)"
proof (induction n arbitrary: s c)
  case 0
  show ?case by simp
next
  case (Suc n)
  obtain c' s' where b: "branch W H i s c = (c', s')" by (cases "branch W H i s c")
  from branch_frame [of W H i s c] b obtain p q where
    c': "saved c' = saved c" "map fst (ops c') = map fst (ops c) @ [Stroke p, Stroke q]"
    by auto
  from Suc.IH [of s' c'] obtain ps where
    ps: "saved (branches_loop n W H i s' c') = saved c'" "length ps = 2 * n"
      "list_all is_stroke ps"
      "map fst (ops (branches_loop n W H i s' c')) = map fst (ops c') @ ps"
    by auto
  have "length (Stroke p # Stroke q # ps) = 2 * Suc n
      \<and> list_all is_stroke (Stroke p # Stroke q # ps)
      \<and> map fst (ops (branches_loop n W H i s' c')) = map fst (ops c) @ (Stroke p # Stroke q # ps)"
    using c' ps by simp
  then have "\<exists>qs. length qs = 2 * Suc n \<and> list_all is_stroke qs
      \<and> map fst (ops (branches_loop n W H i s' c')) = map fst (ops c) @ qs"
    by blast
  then show ?case using b c' ps by simp
qed

lemma drawLightning_cur: "cur (drawLightning c W H n i) = cur c"
  using branches_loop_frame [of n "real W" "real H" i "seeded (lightningSeed i)"
      "set_globalCompositeOperation Screen (save c)"]
  by (simp add: drawLightning_def Let_def restore_def) (simp add: canvas_defs)

lemma drawLightning_saved: "saved (drawLightning c W H n i) = saved c"
  using branches_loop_frame [of n "real W" "real H" i "seeded (lightningSeed i)"
      "set_globalCompositeOperation Screen (save c)"]
  by (simp add: drawLightning_def Let_def restore_def) (simp add: canvas_defs)

lemma drawLightning_prims:
  "\<exists>ps. length ps = 2 * n \<and> list_all is_stroke ps
     \<and> map fst (ops (drawLightning c W H n i)) = map fst (ops c) @ ps"
proof -
  let ?c = "branches_loop n (real W) (real H) i (seeded (lightningSeed i))
      (set_globalCompositeOperation Screen (save c))"
  have "ops (drawLightning c W H n i) = ops ?c"
    by (simp add: drawLightning_def Let_def restore_def split: list.split)
  moreover have "ops (set_globalCompositeOperation Screen (save c)) = ops c"
    by (simp add: canvas_defs)
  ultimately show ?thesis
    using branches_loop_frame [of n "real W" "real H" i "seeded (lightningSeed i)"
      "set_globalCompositeOperation Screen (save c)"]
    by simp
qed

lemma glow_layer_cur: "cur (glow_layer g i c) = cur c"
  by (simp add: glow_layer_def Let_def canvas_defs)

lemma glow_layer_prims: "map fst (ops (glow_layer g i c)) = map fst (ops c) @ [DrawCanvas 0 0]"
  by (simp add: glow_layer_def Let_def canvas_defs)

lemma base_layer_neutral: "neutral c \<Longrightarrow> neutral (base_layer im W H co sa c)"
  by (simp add: neutral_def base_layer_def Let_def canvas_defs)

lemma base_layer_prims:
  "map fst (ops (base_layer im W H co sa c)) =
     map fst (ops c) @
       [let f = fitCover (real (img_width im)) (real (img_height im)) W H
        in DrawImage im (fit_sx f) (fit_sy f) (fit_s f) (fit_s f)
             (fit_dx f) (fit_dy f) (fit_d f) (fit_d f)]"
  by (simp add: base_layer_def Let_def canvas_defs)

lemma tint_layer_neutral: "neutral c \<Longrightarrow> neutral (tint_layer W H cy c)"
  by (simp add: neutral_def tint_layer_def Let_def canvas_defs)

lemma tint_layer_prims: "map fst (ops (tint_layer W H cy c)) = map fst (ops c) @ [FillRect 0 0 W H]"
  by (simp add: tint_layer_def Let_def canvas_defs)

lemma vignette_layer_neutral: "neutral c \<Longrightarrow> neutral (vignette_layer W H v c)"
  by (simp add: neutral_def vignette_layer_def Let_def canvas_defs)

lemma vignette_layer_prims:
  "map fst (ops (vignette_layer W H v c)) = map fst (ops c) @ [FillRect 0 0 W H]"
  by (simp add: vignette_layer_def Let_def canvas_defs)

lemma background_layer_neutral: "neutral c \<Longrightarrow> neutral (background_layer bg W H c)"
  by (simp add: neutral_def background_layer_def Let_def canvas_defs)

lemma background_layer_prims:
  "map fst (ops (background_layer bg W H c)) =
     map fst (ops c) @ (if bg = Dark then [FillRect 0 0 W H] else [])"
  by (simp add: background_layer_def Let_def canvas_defs)

lemma reset_neutral: "neutral (clearRect x y w h (set_height H (set_width W c)))"
  by (simp add: neutral_def set_height_def set_width_def default_dstate_def canvas_defs)

lemma reset_prims:
  "map fst (ops (clearRect x y w h (set_height H (set_width W c)))) = [ClearRect x y w h]"
  by (simp add: set_height_def set_width_def canvas_defs)

lemma neutral_cur: "cur c' = cur c \<Longrightarrow> neutral c' = neutral c"
  by (simp add: neutral_def)

lemma image_layers_neutral: "neutral c \<Longrightarrow> neutral (image_layers im W H p c)"
  by (simp add: image_layers_def Let_def base_layer_neutral tint_layer_neutral
      vignette_layer_neutral neutral_cur [OF glow_layer_cur] neutral_cur [OF drawParticles_cur]
      neutral_cur [OF drawLightning_cur])


section \<open>The calls of a render\<close>

text \<open>
  The painting calls of \<^verbatim>\<open>draw\<close>, in order: the clear, the gradient of the dark
  background, and, when there is an image, the image, the tint, the glow, the discs of
  the particles, the strokes of the bolts and the vignette.
\<close>

lemma image_layers_prims:
  "\<exists>ps ls. length ps = opt_particles p \<and> list_all is_fill ps
     \<and> length ls = (if opt_lightning p then 12 else 0) \<and> list_all is_stroke ls
     \<and> map fst (ops (image_layers im W H p c)) =
         map fst (ops c)
         @ [let f = fitCover (real (img_width im)) (real (img_height im)) (real W) (real H)
            in DrawImage im (fit_sx f) (fit_sy f) (fit_s f) (fit_s f)
                 (fit_dx f) (fit_dy f) (fit_d f) (fit_d f),
            FillRect 0 0 (real W) (real H)]
         @ (if 0 < opt_glow p then [DrawCanvas 0 0] else [])
         @ ps @ ls
         @ (if 0 < opt_vignette p then [FillRect 0 0 (real W) (real H)] else [])"
proof -
  define c2 where "c2 = tint_layer (real W) (real H) (opt_cyanize p)
      (base_layer im (real W) (real H) (opt_contrast p) (opt_saturation p) c)"
  define c3 where "c3 = (if 0 < opt_glow p then glow_layer (opt_glow p) (opt_intensity p) c2 else c2)"
  define c4 where "c4 = drawParticles c3 W H (opt_particles p) (opt_intensity p)"
  define c5 where "c5 = (if opt_lightning p then drawLightning c4 W H 6 (opt_intensity p) else c4)"
  define c6 where "c6 = (if 0 < opt_vignette p
      then vignette_layer (real W) (real H) (opt_vignette p) c5 else c5)"
  have il: "image_layers im W H p c = c6"
    by (simp add: image_layers_def Let_def c2_def c3_def c4_def c5_def c6_def)
  have p2: "map fst (ops c2) = map fst (ops c)
         @ [let f = fitCover (real (img_width im)) (real (img_height im)) (real W) (real H)
            in DrawImage im (fit_sx f) (fit_sy f) (fit_s f) (fit_s f)
                 (fit_dx f) (fit_dy f) (fit_d f) (fit_d f),
            FillRect 0 0 (real W) (real H)]"
    by (simp add: c2_def tint_layer_prims base_layer_prims)
  have p3: "map fst (ops c3) = map fst (ops c2) @ (if 0 < opt_glow p then [DrawCanvas 0 0] else [])"
    by (simp add: c3_def glow_layer_prims)
  obtain ps where ps: "length ps = opt_particles p" "list_all is_fill ps"
      "map fst (ops c4) = map fst (ops c3) @ ps"
    unfolding c4_def using drawParticles_prims [of "opt_particles p" c3 W H "opt_intensity p"]
    by blast
  obtain ls where ls: "length ls = (if opt_lightning p then 12 else 0)" "list_all is_stroke ls"
      "map fst (ops c5) = map fst (ops c4) @ ls"
  proof (cases "opt_lightning p")
    case True
    then show ?thesis
      using that drawLightning_prims [of 6 c4 W H "opt_intensity p"] by (auto simp: c5_def)
  next
    case False
    then show ?thesis using that [of "[]"] by (simp add: c5_def)
  qed
  have p6: "map fst (ops c6) = map fst (ops c5)
      @ (if 0 < opt_vignette p then [FillRect 0 0 (real W) (real H)] else [])"
    by (simp add: c6_def vignette_layer_prims)
  show ?thesis
    unfolding il using ps(1,2) ls(1,2)
    by (intro exI [of _ ps] exI [of _ ls]) (simp add: p6 ls(3) ps(3) p3 p2)
qed

lemma draw_None: "draw None img p = None"
  by (simp add: draw_def)

lemma draw_no_image:
  "draw (Some c) None p =
     Some (background_layer (opt_background p) (real (opt_size p)) (real (opt_size p))
       (clearRect 0 0 (real (opt_size p)) (real (opt_size p))
         (set_height (opt_size p) (set_width (opt_size p) c))))"
  by (simp add: draw_def Let_def)

lemma draw_image:
  "draw (Some c) (Some im) p =
     Some (image_layers im (opt_size p) (opt_size p) p
       (background_layer (opt_background p) (real (opt_size p)) (real (opt_size p))
         (clearRect 0 0 (real (opt_size p)) (real (opt_size p))
           (set_height (opt_size p) (set_width (opt_size p) c)))))"
  by (simp add: draw_def Let_def)

lemma painted_no_image:
  "painted (draw (Some c) None p) =
     ClearRect 0 0 (real (opt_size p)) (real (opt_size p))
     # (if opt_background p = Dark
        then [FillRect 0 0 (real (opt_size p)) (real (opt_size p))] else [])"
  by (simp add: draw_no_image painted_def background_layer_prims reset_prims)

lemma painted_image:
  "\<exists>ps ls. length ps = opt_particles p \<and> list_all is_fill ps
     \<and> length ls = (if opt_lightning p then 12 else 0) \<and> list_all is_stroke ls
     \<and> painted (draw (Some c) (Some im) p) =
         ClearRect 0 0 (real (opt_size p)) (real (opt_size p))
         # (if opt_background p = Dark
            then [FillRect 0 0 (real (opt_size p)) (real (opt_size p))] else [])
         @ [let f = fitCover (real (img_width im)) (real (img_height im))
                      (real (opt_size p)) (real (opt_size p))
            in DrawImage im (fit_sx f) (fit_sy f) (fit_s f) (fit_s f)
                 (fit_dx f) (fit_dy f) (fit_d f) (fit_d f),
            FillRect 0 0 (real (opt_size p)) (real (opt_size p))]
         @ (if 0 < opt_glow p then [DrawCanvas 0 0] else [])
         @ ps @ ls
         @ (if 0 < opt_vignette p
            then [FillRect 0 0 (real (opt_size p)) (real (opt_size p))] else [])"
proof -
  let ?c = "background_layer (opt_background p) (real (opt_size p)) (real (opt_size p))
         (clearRect 0 0 (real (opt_size p)) (real (opt_size p))
           (set_height (opt_size p) (set_width (opt_size p) c)))"
  have b: "map fst (ops ?c) = ClearRect 0 0 (real (opt_size p)) (real (opt_size p))
     # (if opt_background p = Dark
        then [FillRect 0 0 (real (opt_size p)) (real (opt_size p))] else [])"
    by (simp add: background_layer_prims reset_prims)
  show ?thesis
    using image_layers_prims [of p im "opt_size p" "opt_size p" ?c]
    unfolding draw_image painted_def b by simp
qed

lemma filter_none: "list_all P xs \<Longrightarrow> (\<forall>x. P x \<longrightarrow> \<not> Q x) \<Longrightarrow> filter Q xs = []"
  by (induction xs) auto

lemma filter_all: "list_all P xs \<Longrightarrow> filter P xs = xs"
  by (induction xs) auto

lemma fill_not_stroke: "is_fill x \<longrightarrow> \<not> is_stroke x"
  by (cases x) simp_all

lemma stroke_not_fill: "is_stroke x \<longrightarrow> \<not> is_fill x"
  by (cases x) simp_all

lemma fills_image: "fills (draw (Some c) (Some im) p) = opt_particles p"
proof -
  obtain ps ls where *: "length ps = opt_particles p" "list_all is_fill ps"
      "list_all is_stroke ls" and
      **: "painted (draw (Some c) (Some im) p) =
         ClearRect 0 0 (real (opt_size p)) (real (opt_size p))
         # (if opt_background p = Dark
            then [FillRect 0 0 (real (opt_size p)) (real (opt_size p))] else [])
         @ [let f = fitCover (real (img_width im)) (real (img_height im))
                      (real (opt_size p)) (real (opt_size p))
            in DrawImage im (fit_sx f) (fit_sy f) (fit_s f) (fit_s f)
                 (fit_dx f) (fit_dy f) (fit_d f) (fit_d f),
            FillRect 0 0 (real (opt_size p)) (real (opt_size p))]
         @ (if 0 < opt_glow p then [DrawCanvas 0 0] else [])
         @ ps @ ls
         @ (if 0 < opt_vignette p
            then [FillRect 0 0 (real (opt_size p)) (real (opt_size p))] else [])"
    using painted_image [of p c im] by blast
  have "filter is_fill ls = []"
    using filter_none [OF *(3), of is_fill] stroke_not_fill by blast
  then show ?thesis
    unfolding fills_def ** using * by (simp add: Let_def filter_all)
qed

lemma strokes_image:
  "strokes (draw (Some c) (Some im) p) = (if opt_lightning p then 12 else 0)"
proof -
  obtain ps ls where *: "length ls = (if opt_lightning p then 12 else 0)" "list_all is_fill ps"
      "list_all is_stroke ls" and
      **: "painted (draw (Some c) (Some im) p) =
         ClearRect 0 0 (real (opt_size p)) (real (opt_size p))
         # (if opt_background p = Dark
            then [FillRect 0 0 (real (opt_size p)) (real (opt_size p))] else [])
         @ [let f = fitCover (real (img_width im)) (real (img_height im))
                      (real (opt_size p)) (real (opt_size p))
            in DrawImage im (fit_sx f) (fit_sy f) (fit_s f) (fit_s f)
                 (fit_dx f) (fit_dy f) (fit_d f) (fit_d f),
            FillRect 0 0 (real (opt_size p)) (real (opt_size p))]
         @ (if 0 < opt_glow p then [DrawCanvas 0 0] else [])
         @ ps @ ls
         @ (if 0 < opt_vignette p
            then [FillRect 0 0 (real (opt_size p)) (real (opt_size p))] else [])"
    using painted_image [of p c im] by blast
  have "filter is_stroke ps = []"
    using filter_none [OF *(2), of is_stroke] fill_not_stroke by blast
  then show ?thesis
    unfolding strokes_def ** using * by (simp add: Let_def filter_all)
qed

text \<open>
  Claim C1, as stated: with no image, with a positive number of particles and with
  lightning on, the render still draws the particle layer and the lightning layer. In
  the source both calls stand inside \<^verbatim>\<open>if (img) { ... }\<close>. With the default controls
  (150 particles, lightning on) and no image the render makes two painting calls, the
  clear and the background gradient: no disc and no bolt.
\<close>

theorem no_image_background_only:
  "painted (draw (Some blank_canvas) None default_options) =
     [ClearRect 0 0 1024 1024, FillRect 0 0 1024 1024]
   \<and> 0 < opt_particles default_options \<and> opt_lightning default_options
   \<and> fills (draw (Some blank_canvas) None default_options) = 0
   \<and> strokes (draw (Some blank_canvas) None default_options) = 0"
  by (simp add: painted_no_image fills_def strokes_def default_options_def)

text \<open>
  Claim C1, amended: with no image the render paints the background only (the clear
  and, for the dark background, the gradient), no disc and no bolt, whatever the
  controls. With an image it paints as many discs as the particle count and, when
  lightning is on, six bolts of two strokes each. The particle layer and the
  lightning layer depend on the presence of the image as the base image, the tint, the
  glow and the vignette do.
\<close>

theorem particles_lightning_need_image:
  "painted (draw (Some c) None p) =
     ClearRect 0 0 (real (opt_size p)) (real (opt_size p))
     # (if opt_background p = Dark
        then [FillRect 0 0 (real (opt_size p)) (real (opt_size p))] else [])
   \<and> fills (draw (Some c) None p) = 0
   \<and> strokes (draw (Some c) None p) = 0
   \<and> fills (draw (Some c) (Some im) p) = opt_particles p
   \<and> strokes (draw (Some c) (Some im) p) = (if opt_lightning p then 12 else 0)"
  by (simp add: painted_no_image fills_def strokes_def
      fills_image [unfolded fills_def] strokes_image [unfolded strokes_def])

lemma painted_image_member:
  "(let f = fitCover (real (img_width im)) (real (img_height im))
              (real (opt_size p)) (real (opt_size p))
    in DrawImage im (fit_sx f) (fit_sy f) (fit_s f) (fit_s f)
         (fit_dx f) (fit_dy f) (fit_d f) (fit_d f))
   \<in> set (painted (draw (Some c) (Some im) p))"
proof -
  obtain ps ls where
      "painted (draw (Some c) (Some im) p) =
         ClearRect 0 0 (real (opt_size p)) (real (opt_size p))
         # (if opt_background p = Dark
            then [FillRect 0 0 (real (opt_size p)) (real (opt_size p))] else [])
         @ [let f = fitCover (real (img_width im)) (real (img_height im))
                      (real (opt_size p)) (real (opt_size p))
            in DrawImage im (fit_sx f) (fit_sy f) (fit_s f) (fit_s f)
                 (fit_dx f) (fit_dy f) (fit_d f) (fit_d f),
            FillRect 0 0 (real (opt_size p)) (real (opt_size p))]
         @ (if 0 < opt_glow p then [DrawCanvas 0 0] else [])
         @ ps @ ls
         @ (if 0 < opt_vignette p
            then [FillRect 0 0 (real (opt_size p)) (real (opt_size p))] else [])"
    using painted_image [of p c im] by blast
  then show ?thesis by simp
qed

text \<open>
  Claim C5. A square source is not cropped, for every destination that \<^verbatim>\<open>fitCover\<close>
  is given by the render, a square of a side other than 0: the crop is the whole
  source at \<open>(0, 0)\<close>, and the destination is the whole square. For an image of equal
  width and height a render of a positive size passes this crop to \<^verbatim>\<open>drawImage\<close>.
\<close>

theorem fitCover_square_source:
  "(W \<noteq> 0 \<longrightarrow>
      fitCover (real n) (real n) W W =
        \<lparr>fit_sx = Num 0, fit_sy = Num 0, fit_s = Num (real n),
         fit_dx = Num 0, fit_dy = Num 0, fit_d = Num W\<rparr>)
   \<and> (img_width im = img_height im \<and> 0 < opt_size p \<longrightarrow>
        fitCover (real (img_width im)) (real (img_height im))
            (real (opt_size p)) (real (opt_size p)) =
          \<lparr>fit_sx = Num 0, fit_sy = Num 0, fit_s = Num (real (img_width im)),
           fit_dx = Num 0, fit_dy = Num 0, fit_d = Num (real (opt_size p))\<rparr>
        \<and> DrawImage im (Num 0) (Num 0) (Num (real (img_width im))) (Num (real (img_width im)))
            (Num 0) (Num 0) (Num (real (opt_size p))) (Num (real (opt_size p)))
          \<in> set (painted (draw (Some c) (Some im) p)))"
proof -
  have a: "W \<noteq> 0 \<longrightarrow>
      fitCover (real n) (real n) W W =
        \<lparr>fit_sx = Num 0, fit_sy = Num 0, fit_s = Num (real n),
         fit_dx = Num 0, fit_dy = Num 0, fit_d = Num W\<rparr>"
    by (simp add: fitCover_square)
  have b: "fitCover (real (img_width im)) (real (img_height im))
            (real (opt_size p)) (real (opt_size p)) =
          \<lparr>fit_sx = Num 0, fit_sy = Num 0, fit_s = Num (real (img_width im)),
           fit_dx = Num 0, fit_dy = Num 0, fit_d = Num (real (opt_size p))\<rparr>
        \<and> DrawImage im (Num 0) (Num 0) (Num (real (img_width im))) (Num (real (img_width im)))
            (Num 0) (Num 0) (Num (real (opt_size p))) (Num (real (opt_size p)))
          \<in> set (painted (draw (Some c) (Some im) p))"
    if h: "img_width im = img_height im" "0 < opt_size p"
  proof -
    have f: "fitCover (real (img_width im)) (real (img_height im))
            (real (opt_size p)) (real (opt_size p)) =
          \<lparr>fit_sx = Num 0, fit_sy = Num 0, fit_s = Num (real (img_width im)),
           fit_dx = Num 0, fit_dy = Num 0, fit_d = Num (real (opt_size p))\<rparr>"
      using h fitCover_square [of "real (opt_size p)" "img_height im"] by simp
    show ?thesis using painted_image_member [of im p c] by (simp add: f)
  qed
  from a b show ?thesis by blast
qed

theorem fitCover_square_source_witness:
  "(1024 :: real) \<noteq> 0
   \<and> fitCover (real 640) (real 640) 1024 1024 =
     \<lparr>fit_sx = Num 0, fit_sy = Num 0, fit_s = Num (real 640),
      fit_dx = Num 0, fit_dy = Num 0, fit_d = Num 1024\<rparr>
   \<and> img_width \<lparr>img_width = 640, img_height = 640, img_pixels = []\<rparr>
       = img_height \<lparr>img_width = 640, img_height = 640, img_pixels = []\<rparr>
   \<and> 0 < opt_size default_options
   \<and> DrawImage \<lparr>img_width = 640, img_height = 640, img_pixels = []\<rparr>
        (Num 0) (Num 0) (Num 640) (Num 640) (Num 0) (Num 0) (Num 1024) (Num 1024)
      \<in> set (painted (draw (Some blank_canvas)
          (Some \<lparr>img_width = 640, img_height = 640, img_pixels = []\<rparr>) default_options))"
  using fitCover_square_source [where W = 1024 and n = 640
      and im = "\<lparr>img_width = 640, img_height = 640, img_pixels = []\<rparr>"
      and p = default_options and c = blank_canvas]
  by (simp add: default_options_def)

text \<open>
  Claim C2. \<^verbatim>\<open>draw\<close> assigns the width and the height of the canvas first, which resets
  the context and the bitmap: the canvas it leaves is a function of the image and of
  the controls alone, whatever an earlier render left on the canvas. Each procedural
  layer makes its stream anew from its seed, and the two seeds are functions of the
  intensity and of the size: controls that agree on both give the same streams.
\<close>

theorem draw_deterministic:
  "draw (Some c1) img p = draw (Some c2) img p
   \<and> (opt_intensity p = opt_intensity q \<and> opt_size p = opt_size q \<longrightarrow>
        seeded (particleSeed (opt_size p) (opt_size p) (opt_intensity p))
          = seeded (particleSeed (opt_size q) (opt_size q) (opt_intensity q))
        \<and> seeded (lightningSeed (opt_intensity p)) = seeded (lightningSeed (opt_intensity q)))"
proof -
  have "set_height H (set_width W c1) = set_height H (set_width W c2)" for W H
    by (simp add: set_height_def set_width_def)
  then have "draw (Some c1) img p = draw (Some c2) img p"
    by (cases img) (simp_all add: draw_no_image draw_image)
  then show ?thesis by simp
qed

theorem draw_deterministic_witness:
  "opt_intensity default_options = opt_intensity (default_options\<lparr>opt_particles := 10\<rparr>)
   \<and> opt_size default_options = opt_size (default_options\<lparr>opt_particles := 10\<rparr>)
   \<and> seeded (lightningSeed (opt_intensity default_options))
       = seeded (lightningSeed (opt_intensity (default_options\<lparr>opt_particles := 10\<rparr>)))
   \<and> draw (Some blank_canvas) None default_options
       = draw (Some (set_filter [Blur 3] blank_canvas)) None default_options"
  using draw_deterministic [where p = default_options
      and q = "default_options\<lparr>opt_particles := 10\<rparr>"
      and ?c1.0 = blank_canvas and img = None and ?c2.0 = "set_filter [Blur 3] blank_canvas"]
  by simp

lemma clamp_idem: "clamp (clamp v 0 1) 0 1 = clamp v 0 1"
  by (simp add: clamp_def)

lemma image_layers_cyanize:
  "image_layers im W H (p\<lparr>opt_cyanize := clamp cy 0 1\<rparr>) c
     = image_layers im W H (p\<lparr>opt_cyanize := cy\<rparr>) c"
  by (simp add: image_layers_def tint_layer_def clamp_idem Let_def)

text \<open>
  The painting calls made so far stay in the log through the later layers, and the
  tint is recorded with the gradient that it fills.
\<close>

lemma particle_ops_mono: "set (ops c) \<subseteq> set (ops (fst (particle W H s c)))"
  by (auto simp: particle_def Let_def split_def canvas_defs)

lemma particles_loop_ops_mono: "set (ops c) \<subseteq> set (ops (particles_loop n W H s c))"
proof (induction n arbitrary: s c)
  case 0
  show ?case by simp
next
  case (Suc n)
  obtain c' s' where p: "particle W H s c = (c', s')" by (cases "particle W H s c")
  have "set (ops c) \<subseteq> set (ops c')" using particle_ops_mono [of c W H s] p by simp
  also have "\<dots> \<subseteq> set (ops (particles_loop n W H s' c'))" by (rule Suc.IH)
  finally show ?case using p by simp
qed

lemma drawParticles_ops_mono: "set (ops c) \<subseteq> set (ops (drawParticles c W H n i))"
proof -
  let ?c = "particles_loop n (real W) (real H) (seeded (particleSeed W H i))
      (set_globalCompositeOperation Screen (save c))"
  have "ops (drawParticles c W H n i) = ops ?c"
    by (simp add: drawParticles_def Let_def restore_def split: list.split)
  moreover have "ops (set_globalCompositeOperation Screen (save c)) = ops c"
    by (simp add: canvas_defs)
  ultimately show ?thesis
    using particles_loop_ops_mono [of "set_globalCompositeOperation Screen (save c)"
      n "real W" "real H" "seeded (particleSeed W H i)"]
    by simp
qed

lemma branch_ops_mono: "set (ops c) \<subseteq> set (ops (fst (branch W H i s c)))"
  by (auto simp: branch_def Let_def split_def path_frame stroke_def paint_def
      set_filter_def set_strokeStyle_def set_lineWidth_def)

lemma branches_loop_ops_mono: "set (ops c) \<subseteq> set (ops (branches_loop n W H i s c))"
proof (induction n arbitrary: s c)
  case 0
  show ?case by simp
next
  case (Suc n)
  obtain c' s' where b: "branch W H i s c = (c', s')" by (cases "branch W H i s c")
  have "set (ops c) \<subseteq> set (ops c')" using branch_ops_mono [of c W H i s] b by simp
  also have "\<dots> \<subseteq> set (ops (branches_loop n W H i s' c'))" by (rule Suc.IH)
  finally show ?case using b by simp
qed

lemma drawLightning_ops_mono: "set (ops c) \<subseteq> set (ops (drawLightning c W H n i))"
proof -
  let ?c = "branches_loop n (real W) (real H) i (seeded (lightningSeed i))
      (set_globalCompositeOperation Screen (save c))"
  have "ops (drawLightning c W H n i) = ops ?c"
    by (simp add: drawLightning_def Let_def restore_def split: list.split)
  moreover have "ops (set_globalCompositeOperation Screen (save c)) = ops c"
    by (simp add: canvas_defs)
  ultimately show ?thesis
    using branches_loop_ops_mono [of "set_globalCompositeOperation Screen (save c)"
      n "real W" "real H" i "seeded (lightningSeed i)"]
    by simp
qed

lemma glow_layer_ops_mono: "set (ops c) \<subseteq> set (ops (glow_layer g i c))"
  by (auto simp: glow_layer_def Let_def canvas_defs)

lemma vignette_layer_ops_mono: "set (ops c) \<subseteq> set (ops (vignette_layer W H v c))"
  by (auto simp: vignette_layer_def Let_def canvas_defs)

lemma tint_layer_ops:
  "ops (tint_layer W H cy c) =
     ops c @
       [(FillRect 0 0 W H,
         (cur c)\<lparr>globalCompositeOperation := Screen,
                 fillStyle := Radial (W / 2) (H / 2) (W * 0.15) (W / 2) (H / 2) (W * 0.8)
                   [(0, Rgba 0 255 255 (0.35 * clamp cy 0 1)),
                    (1, Rgba 0 160 255 (0.10 * clamp cy 0 1))]\<rparr>)]"
  by (simp add: tint_layer_def Let_def canvas_defs createRadialGradient_def)

lemma image_layers_tint:
  "\<exists>d. (FillRect 0 0 (real W) (real H), d) \<in> set (ops (image_layers im W H p c))
     \<and> globalCompositeOperation d = Screen
     \<and> fillStyle d =
         Radial (real W / 2) (real H / 2) (real W * 0.15) (real W / 2) (real H / 2) (real W * 0.8)
           [(0, Rgba 0 255 255 (0.35 * clamp (opt_cyanize p) 0 1)),
            (1, Rgba 0 160 255 (0.10 * clamp (opt_cyanize p) 0 1))]"
proof -
  define c1 where "c1 = base_layer im (real W) (real H) (opt_contrast p) (opt_saturation p) c"
  define c2 where "c2 = tint_layer (real W) (real H) (opt_cyanize p) c1"
  define c3 where "c3 = (if 0 < opt_glow p then glow_layer (opt_glow p) (opt_intensity p) c2 else c2)"
  define c4 where "c4 = drawParticles c3 W H (opt_particles p) (opt_intensity p)"
  define c5 where "c5 = (if opt_lightning p then drawLightning c4 W H 6 (opt_intensity p) else c4)"
  define c6 where "c6 = (if 0 < opt_vignette p
      then vignette_layer (real W) (real H) (opt_vignette p) c5 else c5)"
  define d where "d = (cur c1)\<lparr>globalCompositeOperation := Screen,
                 fillStyle := Radial (real W / 2) (real H / 2) (real W * 0.15)
                   (real W / 2) (real H / 2) (real W * 0.8)
                   [(0, Rgba 0 255 255 (0.35 * clamp (opt_cyanize p) 0 1)),
                    (1, Rgba 0 160 255 (0.10 * clamp (opt_cyanize p) 0 1))]\<rparr>"
  have il: "image_layers im W H p c = c6"
    by (simp add: image_layers_def Let_def c1_def c2_def c3_def c4_def c5_def c6_def)
  have "(FillRect 0 0 (real W) (real H), d) \<in> set (ops c2)"
    by (simp add: c2_def tint_layer_ops d_def)
  moreover have "set (ops c2) \<subseteq> set (ops c3)"
    using glow_layer_ops_mono [of c2] by (simp add: c3_def)
  moreover have "set (ops c3) \<subseteq> set (ops c4)"
    unfolding c4_def by (rule drawParticles_ops_mono)
  moreover have "set (ops c4) \<subseteq> set (ops c5)"
    using drawLightning_ops_mono [of c4] by (simp add: c5_def)
  moreover have "set (ops c5) \<subseteq> set (ops c6)"
    using vignette_layer_ops_mono [of c5] by (simp add: c6_def)
  ultimately have "(FillRect 0 0 (real W) (real H), d) \<in> set (ops c6)" by blast
  moreover have "globalCompositeOperation d = Screen" by (simp add: d_def)
  moreover have "fillStyle d =
         Radial (real W / 2) (real H / 2) (real W * 0.15) (real W / 2) (real H / 2) (real W * 0.8)
           [(0, Rgba 0 255 255 (0.35 * clamp (opt_cyanize p) 0 1)),
            (1, Rgba 0 160 255 (0.10 * clamp (opt_cyanize p) 0 1))]"
    by (simp add: d_def)
  ultimately show ?thesis unfolding il by blast
qed

text \<open>
  Claim C6. \<^verbatim>\<open>clamp(cyanize, 0, 1)\<close> is 0 below 0, 1 above 1 and \<^verbatim>\<open>cyanize\<close> itself in
  between, a value of \<open>[0, 1]\<close>. The tint is the only layer that reads \<^verbatim>\<open>cyanize\<close>, and it
  reads it through the clamp: the two stops of its gradient have the alphas
  \<open>0.35 * clamp cyanize 0 1\<close> and \<open>0.10 * clamp cyanize 0 1\<close>, and the tint of a render
  with an image is in the log of the canvas with these stops. So a render with
  \<^verbatim>\<open>cyanize\<close> is the render with the clamped value, and for every value of at least 1
  (1.5, say) it is the render with \<^verbatim>\<open>cyanize\<close> equal to 1.
\<close>

theorem cyanize_clamped:
  "draw cv img (p\<lparr>opt_cyanize := cy\<rparr>) = draw cv img (p\<lparr>opt_cyanize := clamp cy 0 1\<rparr>)
   \<and> 0 \<le> clamp cy 0 1 \<and> clamp cy 0 1 \<le> 1
   \<and> (1 \<le> cy \<longrightarrow> draw cv img (p\<lparr>opt_cyanize := cy\<rparr>) = draw cv img (p\<lparr>opt_cyanize := 1\<rparr>))
   \<and> clamp cy 0 1 = (if cy < 0 then 0 else if 1 < cy then 1 else cy)
   \<and> (1 \<le> cy \<longrightarrow> clamp cy 0 1 = 1)
   \<and> (0 \<le> cy \<and> cy \<le> 1 \<longrightarrow> clamp cy 0 1 = cy)
   \<and> (cy \<le> 0 \<longrightarrow> clamp cy 0 1 = 0)
   \<and> ops (tint_layer W H cy c) =
       ops c @
         [(FillRect 0 0 W H,
           (cur c)\<lparr>globalCompositeOperation := Screen,
                   fillStyle := Radial (W / 2) (H / 2) (W * 0.15) (W / 2) (H / 2) (W * 0.8)
                     [(0, Rgba 0 255 255 (0.35 * clamp cy 0 1)),
                      (1, Rgba 0 160 255 (0.10 * clamp cy 0 1))]\<rparr>)]
   \<and> (\<exists>c' d. draw (Some c) (Some im) (p\<lparr>opt_cyanize := cy\<rparr>) = Some c'
         \<and> (FillRect 0 0 (real (opt_size p)) (real (opt_size p)), d) \<in> set (ops c')
         \<and> globalCompositeOperation d = Screen
         \<and> fillStyle d =
             Radial (real (opt_size p) / 2) (real (opt_size p) / 2) (real (opt_size p) * 0.15)
               (real (opt_size p) / 2) (real (opt_size p) / 2) (real (opt_size p) * 0.8)
               [(0, Rgba 0 255 255 (0.35 * clamp cy 0 1)),
                (1, Rgba 0 160 255 (0.10 * clamp cy 0 1))])"
proof -
  have e: "draw cv img (p\<lparr>opt_cyanize := cy\<rparr>) = draw cv img (p\<lparr>opt_cyanize := clamp cy 0 1\<rparr>)"
  proof (cases cv)
    case None
    then show ?thesis by (simp add: draw_None)
  next
    case (Some c)
    then show ?thesis
      by (cases img) (simp_all add: draw_no_image draw_image image_layers_cyanize)
  qed
  have k: "clamp cy 0 1 = (if cy < 0 then 0 else if 1 < cy then 1 else cy)"
    by (simp add: clamp_def)
  have one: "1 \<le> cy \<Longrightarrow> clamp cy 0 1 = 1" by (simp add: clamp_def)
  have r: "0 \<le> clamp cy 0 1 \<and> clamp cy 0 1 \<le> 1" by (simp add: clamp_def)
  have m: "0 \<le> cy \<and> cy \<le> 1 \<longrightarrow> clamp cy 0 1 = cy" by (simp add: clamp_def)
  have z: "cy \<le> 0 \<longrightarrow> clamp cy 0 1 = 0" by (simp add: clamp_def)
  have d1: "1 \<le> cy \<longrightarrow> draw cv img (p\<lparr>opt_cyanize := cy\<rparr>) = draw cv img (p\<lparr>opt_cyanize := 1\<rparr>)"
    using e one by simp
  note t = tint_layer_ops [of W H cy c]
  have x: "\<exists>c' d. draw (Some c) (Some im) (p\<lparr>opt_cyanize := cy\<rparr>) = Some c'
         \<and> (FillRect 0 0 (real (opt_size p)) (real (opt_size p)), d) \<in> set (ops c')
         \<and> globalCompositeOperation d = Screen
         \<and> fillStyle d =
             Radial (real (opt_size p) / 2) (real (opt_size p) / 2) (real (opt_size p) * 0.15)
               (real (opt_size p) / 2) (real (opt_size p) / 2) (real (opt_size p) * 0.8)
               [(0, Rgba 0 255 255 (0.35 * clamp cy 0 1)),
                (1, Rgba 0 160 255 (0.10 * clamp cy 0 1))]"
    using image_layers_tint [of "opt_size p" "opt_size p" im "p\<lparr>opt_cyanize := cy\<rparr>"]
    by (simp add: draw_image)
  from e r d1 k one m z t x show ?thesis by blast
qed

theorem cyanize_clamped_witness:
  "(1 :: real) \<le> 1.5
   \<and> clamp 1.5 0 1 = 1
   \<and> (0 :: real) \<le> 0.55 \<and> (0.55 :: real) \<le> 1 \<and> clamp 0.55 0 1 = 0.55
   \<and> (-2 :: real) \<le> 0 \<and> clamp (-2) 0 1 = 0
   \<and> draw (Some blank_canvas) (Some \<lparr>img_width = 800, img_height = 400, img_pixels = []\<rparr>)
        (default_options\<lparr>opt_cyanize := 1.5\<rparr>)
     = draw (Some blank_canvas) (Some \<lparr>img_width = 800, img_height = 400, img_pixels = []\<rparr>)
        (default_options\<lparr>opt_cyanize := 1\<rparr>)"
proof -
  note a = cyanize_clamped [where cv = "Some blank_canvas"
      and img = "Some \<lparr>img_width = 800, img_height = 400, img_pixels = []\<rparr>"
      and p = default_options and cy = "1.5"]
  note b = cyanize_clamped [where cy = "0.55"]
  note c = cyanize_clamped [where cy = "-2"]
  have h: "(1 :: real) \<le> 1.5" "(0 :: real) \<le> 0.55" "(0.55 :: real) \<le> 1" "(-2 :: real) \<le> 0"
    by simp_all
  from a h have "clamp 1.5 0 1 = 1
     \<and> draw (Some blank_canvas) (Some \<lparr>img_width = 800, img_height = 400, img_pixels = []\<rparr>)
        (default_options\<lparr>opt_cyanize := 1.5\<rparr>)
     = draw (Some blank_canvas) (Some \<lparr>img_width = 800, img_height = 400, img_pixels = []\<rparr>)
        (default_options\<lparr>opt_cyanize := 1\<rparr>)" by blast
  moreover from b h have "clamp 0.55 0 1 = 0.55" by blast
  moreover from c h have "clamp (-2) 0 1 = 0" by blast
  ultimately show ?thesis using h by blast
qed

section \<open>An image of width or height zero\<close>

lemma floor_half_nat: "\<lfloor>real n / 2\<rfloor> = int (n div 2)"
  using floor_divide_of_nat_eq [of n 2, where ?'a = real] by simp

lemma fitCover_degenerate:
  assumes "w = 0 \<or> h = 0" "0 < W"
  shows "fitCover (real w) (real h) (real W) (real W) =
     \<lparr>fit_sx = Num (real (w div 2)), fit_sy = Num (real (h div 2)), fit_s = Num 0,
      fit_dx = Num 0, fit_dy = Num 0, fit_d = Num (real W)\<rparr>"
  using assms by (auto simp: fitCover_def floor_half_nat)

text \<open>
  Claim C8, as stated: with an image of width or height zero the render fails with an
  error before the fit is computed. The source checks only \<^verbatim>\<open>if (img)\<close> and has no
  error result. For an image of 0 by 10 with the default controls \<^verbatim>\<open>draw\<close> leaves a
  canvas: \<^verbatim>\<open>fitCover\<close> is called and returns the crop of side 0 at \<open>(0, 5)\<close>, the third
  painting call is \<^verbatim>\<open>drawImage\<close> with that crop, and the 150 discs and the 12 strokes of
  the later layers follow.
\<close>

theorem zero_width_image_no_error:
  "draw (Some blank_canvas) (Some \<lparr>img_width = 0, img_height = 10, img_pixels = []\<rparr>)
       default_options \<noteq> None
   \<and> fitCover 0 10 1024 1024 =
       \<lparr>fit_sx = Num 0, fit_sy = Num 5, fit_s = Num 0,
        fit_dx = Num 0, fit_dy = Num 0, fit_d = Num 1024\<rparr>
   \<and> take 3 (painted (draw (Some blank_canvas)
         (Some \<lparr>img_width = 0, img_height = 10, img_pixels = []\<rparr>) default_options)) =
       [ClearRect 0 0 1024 1024, FillRect 0 0 1024 1024,
        DrawImage \<lparr>img_width = 0, img_height = 10, img_pixels = []\<rparr>
          (Num 0) (Num 5) (Num 0) (Num 0) (Num 0) (Num 0) (Num 1024) (Num 1024)]
   \<and> fills (draw (Some blank_canvas)
         (Some \<lparr>img_width = 0, img_height = 10, img_pixels = []\<rparr>) default_options) = 150
   \<and> strokes (draw (Some blank_canvas)
         (Some \<lparr>img_width = 0, img_height = 10, img_pixels = []\<rparr>) default_options) = 12"
proof -
  let ?im = "\<lparr>img_width = 0, img_height = 10, img_pixels = []\<rparr>"
  have f: "fitCover 0 10 1024 1024 =
       \<lparr>fit_sx = Num 0, fit_sy = Num 5, fit_s = Num 0,
        fit_dx = Num 0, fit_dy = Num 0, fit_d = Num 1024\<rparr>"
    by (simp add: fitCover_def Let_def)
  obtain ps ls where
      "painted (draw (Some blank_canvas) (Some ?im) default_options) =
         ClearRect 0 0 (real (opt_size default_options)) (real (opt_size default_options))
         # (if opt_background default_options = Dark
            then [FillRect 0 0 (real (opt_size default_options)) (real (opt_size default_options))] else [])
         @ [let f = fitCover (real (img_width ?im)) (real (img_height ?im))
                      (real (opt_size default_options)) (real (opt_size default_options))
            in DrawImage ?im (fit_sx f) (fit_sy f) (fit_s f) (fit_s f)
                 (fit_dx f) (fit_dy f) (fit_d f) (fit_d f),
            FillRect 0 0 (real (opt_size default_options)) (real (opt_size default_options))]
         @ (if 0 < opt_glow default_options then [DrawCanvas 0 0] else [])
         @ ps @ ls
         @ (if 0 < opt_vignette default_options
            then [FillRect 0 0 (real (opt_size default_options)) (real (opt_size default_options))] else [])"
    using painted_image [of default_options blank_canvas ?im] by blast
  then have t: "take 3 (painted (draw (Some blank_canvas) (Some ?im) default_options)) =
       [ClearRect 0 0 1024 1024, FillRect 0 0 1024 1024,
        DrawImage ?im (Num 0) (Num 5) (Num 0) (Num 0) (Num 0) (Num 0) (Num 1024) (Num 1024)]"
    by (simp add: default_options_def f)
  have "draw (Some blank_canvas) (Some ?im) default_options \<noteq> None"
    by (simp add: draw_image)
  then show ?thesis
    using f t by (simp add: fills_image strokes_image) (simp add: default_options_def)
qed

text \<open>
  Claim C8, amended: \<^verbatim>\<open>draw\<close> does not validate the size of the image and returns no
  error. With an image of width or height zero and a positive output size, \<^verbatim>\<open>fitCover\<close>
  is computed on the degenerate geometry (the division by zero gives \<^verbatim>\<open>Infinity\<close> or
  \<^verbatim>\<open>NaN\<close>, not an exception) and returns a crop of side 0; the crop is passed to
  \<^verbatim>\<open>drawImage\<close>, and every later layer runs: the render leaves a canvas with the
  discs and the bolts of an ordinary render.
\<close>

theorem degenerate_image_is_drawn:
  assumes "img_width im = 0 \<or> img_height im = 0" and "0 < opt_size p"
  shows "fit_s (fitCover (real (img_width im)) (real (img_height im))
             (real (opt_size p)) (real (opt_size p))) = Num 0
    \<and> draw (Some c) (Some im) p \<noteq> None
    \<and> DrawImage im (Num (real (img_width im div 2))) (Num (real (img_height im div 2)))
         (Num 0) (Num 0) (Num 0) (Num 0) (Num (real (opt_size p))) (Num (real (opt_size p)))
       \<in> set (painted (draw (Some c) (Some im) p))
    \<and> fills (draw (Some c) (Some im) p) = opt_particles p
    \<and> strokes (draw (Some c) (Some im) p) = (if opt_lightning p then 12 else 0)"
proof -
  note f = fitCover_degenerate [OF assms]
  obtain ps ls where
      "painted (draw (Some c) (Some im) p) =
         ClearRect 0 0 (real (opt_size p)) (real (opt_size p))
         # (if opt_background p = Dark
            then [FillRect 0 0 (real (opt_size p)) (real (opt_size p))] else [])
         @ [let f = fitCover (real (img_width im)) (real (img_height im))
                      (real (opt_size p)) (real (opt_size p))
            in DrawImage im (fit_sx f) (fit_sy f) (fit_s f) (fit_s f)
                 (fit_dx f) (fit_dy f) (fit_d f) (fit_d f),
            FillRect 0 0 (real (opt_size p)) (real (opt_size p))]
         @ (if 0 < opt_glow p then [DrawCanvas 0 0] else [])
         @ ps @ ls
         @ (if 0 < opt_vignette p
            then [FillRect 0 0 (real (opt_size p)) (real (opt_size p))] else [])"
    using painted_image [of p c im] by blast
  then have "DrawImage im (Num (real (img_width im div 2))) (Num (real (img_height im div 2)))
         (Num 0) (Num 0) (Num 0) (Num 0) (Num (real (opt_size p))) (Num (real (opt_size p)))
       \<in> set (painted (draw (Some c) (Some im) p))"
    by (simp add: f)
  moreover have "draw (Some c) (Some im) p \<noteq> None"
    by (simp add: draw_image)
  ultimately show ?thesis
    by (simp add: f fills_image strokes_image)
qed

theorem degenerate_image_is_drawn_witness:
  "img_width \<lparr>img_width = 0, img_height = 10, img_pixels = []\<rparr> = 0
   \<and> 0 < opt_size default_options
   \<and> draw (Some blank_canvas) (Some \<lparr>img_width = 0, img_height = 10, img_pixels = []\<rparr>)
        default_options \<noteq> None
   \<and> fills (draw (Some blank_canvas) (Some \<lparr>img_width = 0, img_height = 10, img_pixels = []\<rparr>)
        default_options) = 150"
  using degenerate_image_is_drawn [where im = "\<lparr>img_width = 0, img_height = 10, img_pixels = []\<rparr>"
      and p = default_options and c = blank_canvas]
  by (simp add: default_options_def)

section \<open>The operator and the filter between the layers\<close>

text \<open>
  Claim C9. Each of the six layers, run on a canvas whose operator and filter are
  neutral, leaves them neutral, for all its parameters; the glow, the particles and the
  lightning restore the whole drawing state that they found. In a render the canvas is
  neutral after the reset and the background, so it is neutral at the start and at the
  end of every layer, with or without an image.
\<close>

theorem layers_leave_neutral:
  "(neutral c \<longrightarrow>
      neutral (base_layer im W H co sa c) \<and> neutral (tint_layer W H cy c)
      \<and> neutral (glow_layer g i c) \<and> neutral (drawParticles c w h n i)
      \<and> neutral (drawLightning c w h b i) \<and> neutral (vignette_layer W H v c))
   \<and> cur (glow_layer g i c) = cur c \<and> cur (drawParticles c w h n i) = cur c
   \<and> cur (drawLightning c w h b i) = cur c
   \<and> (let S = opt_size p;
           c0 = background_layer (opt_background p) (real S) (real S)
                  (clearRect 0 0 (real S) (real S) (set_height S (set_width S c)));
           c1 = base_layer im (real S) (real S) (opt_contrast p) (opt_saturation p) c0;
           c2 = tint_layer (real S) (real S) (opt_cyanize p) c1;
           c3 = (if 0 < opt_glow p then glow_layer (opt_glow p) (opt_intensity p) c2 else c2);
           c4 = drawParticles c3 S S (opt_particles p) (opt_intensity p);
           c5 = (if opt_lightning p then drawLightning c4 S S 6 (opt_intensity p) else c4);
           c6 = (if 0 < opt_vignette p
                 then vignette_layer (real S) (real S) (opt_vignette p) c5 else c5)
       in draw (Some c) None p = Some c0 \<and> draw (Some c) (Some im) p = Some c6
          \<and> neutral c0 \<and> neutral c1 \<and> neutral c2 \<and> neutral c3 \<and> neutral c4
          \<and> neutral c5 \<and> neutral c6)"
proof -
  have a: "neutral c \<longrightarrow>
      neutral (base_layer im W H co sa c) \<and> neutral (tint_layer W H cy c)
      \<and> neutral (glow_layer g i c) \<and> neutral (drawParticles c w h n i)
      \<and> neutral (drawLightning c w h b i) \<and> neutral (vignette_layer W H v c)"
    by (simp add: base_layer_neutral tint_layer_neutral vignette_layer_neutral
        neutral_cur [OF glow_layer_cur] neutral_cur [OF drawParticles_cur]
        neutral_cur [OF drawLightning_cur])
  have b: "cur (glow_layer g i c) = cur c \<and> cur (drawParticles c w h n i) = cur c
      \<and> cur (drawLightning c w h b i) = cur c"
    by (simp add: glow_layer_cur drawParticles_cur drawLightning_cur)
  define S where "S = opt_size p"
  define c0 where "c0 = background_layer (opt_background p) (real S) (real S)
                  (clearRect 0 0 (real S) (real S) (set_height S (set_width S c)))"
  define c1 where "c1 = base_layer im (real S) (real S) (opt_contrast p) (opt_saturation p) c0"
  define c2 where "c2 = tint_layer (real S) (real S) (opt_cyanize p) c1"
  define c3 where "c3 = (if 0 < opt_glow p then glow_layer (opt_glow p) (opt_intensity p) c2 else c2)"
  define c4 where "c4 = drawParticles c3 S S (opt_particles p) (opt_intensity p)"
  define c5 where "c5 = (if opt_lightning p then drawLightning c4 S S 6 (opt_intensity p) else c4)"
  define c6 where "c6 = (if 0 < opt_vignette p
                 then vignette_layer (real S) (real S) (opt_vignette p) c5 else c5)"
  have d0: "draw (Some c) None p = Some c0"
    by (simp add: draw_no_image c0_def S_def)
  have d6: "draw (Some c) (Some im) p = Some c6"
    by (simp add: draw_image image_layers_def Let_def c0_def c1_def c2_def c3_def c4_def
        c5_def c6_def S_def)
  have n0: "neutral c0"
    unfolding c0_def by (rule background_layer_neutral) (rule reset_neutral)
  have n1: "neutral c1" unfolding c1_def using n0 by (rule base_layer_neutral)
  have n2: "neutral c2" unfolding c2_def using n1 by (rule tint_layer_neutral)
  have n3: "neutral c3" using n2 by (simp add: c3_def neutral_cur [OF glow_layer_cur])
  have n4: "neutral c4" using n3 by (simp add: c4_def neutral_cur [OF drawParticles_cur])
  have n5: "neutral c5" using n4 by (simp add: c5_def neutral_cur [OF drawLightning_cur])
  have n6: "neutral c6" using n5 by (simp add: c6_def vignette_layer_neutral)
  have "draw (Some c) None p = Some c0 \<and> draw (Some c) (Some im) p = Some c6
          \<and> neutral c0 \<and> neutral c1 \<and> neutral c2 \<and> neutral c3 \<and> neutral c4
          \<and> neutral c5 \<and> neutral c6"
    using d0 d6 n0 n1 n2 n3 n4 n5 n6 by simp
  then have l: "(let S = opt_size p;
           c0 = background_layer (opt_background p) (real S) (real S)
                  (clearRect 0 0 (real S) (real S) (set_height S (set_width S c)));
           c1 = base_layer im (real S) (real S) (opt_contrast p) (opt_saturation p) c0;
           c2 = tint_layer (real S) (real S) (opt_cyanize p) c1;
           c3 = (if 0 < opt_glow p then glow_layer (opt_glow p) (opt_intensity p) c2 else c2);
           c4 = drawParticles c3 S S (opt_particles p) (opt_intensity p);
           c5 = (if opt_lightning p then drawLightning c4 S S 6 (opt_intensity p) else c4);
           c6 = (if 0 < opt_vignette p
                 then vignette_layer (real S) (real S) (opt_vignette p) c5 else c5)
       in draw (Some c) None p = Some c0 \<and> draw (Some c) (Some im) p = Some c6
          \<and> neutral c0 \<and> neutral c1 \<and> neutral c2 \<and> neutral c3 \<and> neutral c4
          \<and> neutral c5 \<and> neutral c6)"
    unfolding Let_def c0_def c1_def c2_def c3_def c4_def c5_def c6_def S_def .
  from a b l show ?thesis by blast
qed

theorem layers_leave_neutral_witness:
  "neutral blank_canvas
   \<and> neutral (drawParticles blank_canvas 512 512 50 0.7)
   \<and> neutral (drawLightning blank_canvas 512 512 6 0.7)
   \<and> neutral (tint_layer 512 512 0.55 blank_canvas)"
  using layers_leave_neutral [where c = blank_canvas and w = 512 and h = 512 and n = 50
      and i = "0.7" and b = 6 and W = 512 and H = 512 and cy = "0.55"]
  by (simp add: neutral_def blank_canvas_def default_dstate_def)

end
